theory Spec2Isabelle
  imports Complex_Main "HOL-Library.Multiset"
begin

section \<open>Tensors, errors and the random generator\<close>

text \<open>
  The notebook \<^verbatim>\<open>torch/LinearClassifier.ipynb\<close> is a straight-line script over the tensor
  library. Tensor entries are modelled as real numbers; the overflow and the NaN of 32-bit
  floats are modelled for the forward pass alone, in a section of its own, and rounding
  nowhere. A 2-D tensor is the list of its rows; a
  tensor of shape \<open>[n, 1]\<close> is a list of \<open>n\<close> one-element rows. Every exception the library
  can raise on the paths of the script is a value of \<open>error\<close>, and an operation that can
  raise returns \<open>error + 'a\<close>.

  The script's own code is the model class, the label rule, the two loops and the
  evaluation cell. What it calls in the library (\<^verbatim>\<open>randn\<close>, \<^verbatim>\<open>randperm\<close>, the loader, the
  linear layer and its initialisation, \<^verbatim>\<open>BCELoss\<close>, \<^verbatim>\<open>backward\<close>, \<^verbatim>\<open>Adam\<close>) is written out
  after the library's documented behaviour, so that the script's functions compute.
\<close>

type_synonym tensor = "real list list"

datatype error = ShapeMismatch | IndexOutOfRange | ValueOutOfRange | ZeroDivision

definition has_shape :: "nat \<Rightarrow> nat \<Rightarrow> tensor \<Rightarrow> bool" where
  "has_shape n c t = (length t = n \<and> list_all (\<lambda>r. length r = c) t)"

text \<open>
  The global random generator: a source of standard normal draws (\<^verbatim>\<open>torch.randn\<close>), of
  uniform draws in the unit interval (parameter initialisation) and of raw integers
  (\<^verbatim>\<open>randperm\<close>), read at a cursor that every draw advances.
\<close>

record generator =
  normal_source :: "nat \<Rightarrow> real"
  uniform_source :: "nat \<Rightarrow> real"
  random_source :: "nat \<Rightarrow> nat"
  offset :: nat

text \<open>\<^verbatim>\<open>torch.randn(rows, cols)\<close>: the tensor is filled row by row with consecutive draws.\<close>

definition randn :: "nat \<Rightarrow> nat \<Rightarrow> generator \<Rightarrow> tensor \<times> generator" where
  "randn rows cols g =
     (map (\<lambda>i. map (\<lambda>j. normal_source g (offset g + i * cols + j)) [0..<cols]) [0..<rows],
      g\<lparr>offset := offset g + rows * cols\<rparr>)"

section \<open>The model\<close>

text \<open>
  A parameter tensor with its \<^verbatim>\<open>.grad\<close> attribute. \<^verbatim>\<open>nn.Linear(input_dim, 1)\<close> owns a weight
  of shape \<open>[1, input_dim]\<close>, kept as its single row, and a bias of shape \<open>[1]\<close>.
\<close>

record parameter =
  data :: "real list"
  grad :: "real list option"

record LinearClassifier =
  linear_weight :: parameter
  linear_bias :: parameter
  training :: bool

definition parameters :: "LinearClassifier \<Rightarrow> parameter list" where
  "parameters m = [linear_weight m, linear_bias m]"

definition sigmoid :: "real \<Rightarrow> real" where
  "sigmoid z = 1 / (1 + exp (- z))"

text \<open>
  \<^verbatim>\<open>self.linear(x)\<close> on a batch: each row is multiplied with the weight row and the bias is
  added; a row whose length differs from the weight's raises the library's shape error.
\<close>

definition dot :: "real list \<Rightarrow> real list \<Rightarrow> real" where
  "dot u v = sum_list (map2 (*) u v)"

definition linear_apply :: "LinearClassifier \<Rightarrow> tensor \<Rightarrow> error + tensor" where
  "linear_apply m x =
     (if list_all (\<lambda>r. length r = length (data (linear_weight m))) x
         \<and> length (data (linear_bias m)) = 1
      then Inr (map (\<lambda>r. map (\<lambda>b. dot r (data (linear_weight m)) + b) (data (linear_bias m))) x)
      else Inl ShapeMismatch)"

text \<open>\<^verbatim>\<open>forward\<close>: \<^verbatim>\<open>return torch.sigmoid(self.linear(x))\<close>.\<close>

definition forward :: "LinearClassifier \<Rightarrow> tensor \<Rightarrow> error + tensor" where
  "forward m x =
     (case linear_apply m x of
        Inl e \<Rightarrow> Inl e
      | Inr z \<Rightarrow> Inr (map (map sigmoid) z))"

section \<open>The forward pass on 32-bit floats\<close>

text \<open>
  The tensors of the script hold 32-bit floats. Everywhere else in this theory their
  entries are real numbers, which is adequate as long as no value leaves the range of the
  format. For the forward pass alone the values of the format are written out: the finite
  numbers, the two infinities and NaN. A product or sum of finite values whose exact
  result rounds beyond the largest finite float is the infinity of its sign; infinities
  and NaN combine by the IEEE rules; rounding inside the range is not modelled. The
  linear layer adds the products of a row with the weight from left to right and then
  the bias; the sigmoid of \<open>+\<infinity>\<close> is \<open>1\<close>, of \<open>-\<infinity>\<close> is \<open>0\<close>, of NaN is NaN.
\<close>

datatype f32 = Finite real | PosInf | NegInf | NaN

definition f32_overflow :: real where
  "f32_overflow = (2 - 1 / 2 ^ 24) * 2 ^ 127"

definition f32_round :: "real \<Rightarrow> f32" where
  "f32_round r =
     (if f32_overflow \<le> r then PosInf else if r \<le> - f32_overflow then NegInf else Finite r)"

definition inf_times :: "bool \<Rightarrow> real \<Rightarrow> f32" where
  "inf_times positive a =
     (if a = 0 then NaN else if (0 < a) = positive then PosInf else NegInf)"

fun f32_mul :: "f32 \<Rightarrow> f32 \<Rightarrow> f32" where
  "f32_mul NaN v = NaN"
| "f32_mul u NaN = NaN"
| "f32_mul (Finite a) (Finite b) = f32_round (a * b)"
| "f32_mul (Finite a) PosInf = inf_times True a"
| "f32_mul (Finite a) NegInf = inf_times False a"
| "f32_mul PosInf (Finite b) = inf_times True b"
| "f32_mul NegInf (Finite b) = inf_times False b"
| "f32_mul PosInf PosInf = PosInf"
| "f32_mul PosInf NegInf = NegInf"
| "f32_mul NegInf PosInf = NegInf"
| "f32_mul NegInf NegInf = PosInf"

fun f32_add :: "f32 \<Rightarrow> f32 \<Rightarrow> f32" where
  "f32_add NaN v = NaN"
| "f32_add u NaN = NaN"
| "f32_add (Finite a) (Finite b) = f32_round (a + b)"
| "f32_add PosInf NegInf = NaN"
| "f32_add NegInf PosInf = NaN"
| "f32_add PosInf v = PosInf"
| "f32_add u PosInf = PosInf"
| "f32_add NegInf v = NegInf"
| "f32_add u NegInf = NegInf"

fun sigmoid_f32 :: "f32 \<Rightarrow> f32" where
  "sigmoid_f32 (Finite z) = Finite (sigmoid z)"
| "sigmoid_f32 PosInf = Finite 1"
| "sigmoid_f32 NegInf = Finite 0"
| "sigmoid_f32 NaN = NaN"

definition linear_f32 :: "f32 list \<Rightarrow> f32 list \<Rightarrow> f32 list list \<Rightarrow> error + f32 list list" where
  "linear_f32 w b x =
     (if list_all (\<lambda>r. length r = length w) x \<and> length b = 1
      then Inr (map (\<lambda>r. map (\<lambda>c. f32_add (foldl f32_add (Finite 0) (map2 f32_mul r w)) c) b) x)
      else Inl ShapeMismatch)"

definition forward_f32 :: "f32 list \<Rightarrow> f32 list \<Rightarrow> f32 list list \<Rightarrow> error + f32 list list" where
  "forward_f32 w b x =
     (case linear_f32 w b x of
        Inl e \<Rightarrow> Inl e
      | Inr z \<Rightarrow> Inr (map (map sigmoid_f32) z))"



section \<open>Data generation and loading\<close>

text \<open>\<^verbatim>\<open>X[:, j]\<close>: column \<open>j\<close> of a 2-D tensor; an index beyond a row raises.\<close>

definition select_column :: "nat \<Rightarrow> tensor \<Rightarrow> error + real list" where
  "select_column j t =
     (if list_all (\<lambda>r. j < length r) t then Inr (map (\<lambda>r. r ! j) t) else Inl IndexOutOfRange)"

text \<open>\<^verbatim>\<open>y = (X[:, 0] + X[:, 1] > 0).float().view(-1, 1)\<close>.\<close>

definition make_labels :: "tensor \<Rightarrow> error + tensor" where
  "make_labels t =
     (case select_column 0 t of
        Inl e \<Rightarrow> Inl e
      | Inr c0 \<Rightarrow>
          (case select_column 1 t of
             Inl e \<Rightarrow> Inl e
           | Inr c1 \<Rightarrow> Inr (map (\<lambda>s. [if 0 < s then 1 else 0]) (map2 (+) c0 c1))))"

text \<open>
  \<^verbatim>\<open>TensorDataset(X, y)\<close> pairs sample \<open>i\<close> of both tensors and refuses tensors whose first
  dimensions differ.
\<close>

type_synonym dataset = "(real list \<times> real list) list"

definition TensorDataset :: "tensor \<Rightarrow> tensor \<Rightarrow> error + dataset" where
  "TensorDataset a b = (if length a = length b then Inr (zip a b) else Inl ShapeMismatch)"

record DataLoader =
  dataset :: dataset
  batch_size :: nat
  shuffle :: bool

text \<open>
  \<^verbatim>\<open>randperm(n)\<close>, the library's swap loop: start from \<open>0, \<dots>, n - 1\<close> and, for
  \<open>i = 0, \<dots>, n - 2\<close>, exchange position \<open>i\<close> with position \<open>i + z\<close>, where \<open>z\<close> is the next
  raw draw modulo \<open>n - i\<close>.
\<close>

definition randperm :: "nat \<Rightarrow> generator \<Rightarrow> nat list \<times> generator" where
  "randperm n g =
     (fold (\<lambda>i r. let z = random_source g (offset g + i) mod (n - i)
                   in r[i := r ! (z + i), z + i := r ! i])
           [0..<n - 1] [0..<n],
      g\<lparr>offset := offset g + (n - 1)\<rparr>)"

text \<open>The sampler: a fresh permutation of the indices when shuffling, else the indices in order.\<close>

definition sampler :: "DataLoader \<Rightarrow> generator \<Rightarrow> nat list \<times> generator" where
  "sampler dl g =
     (if shuffle dl then randperm (length (dataset dl)) g
      else ([0..<length (dataset dl)], g))"

text \<open>The batch sampler cuts the index sequence into runs of \<open>batch_size\<close>; the last run may be shorter.\<close>

fun batch_sampler :: "nat \<Rightarrow> 'a list \<Rightarrow> 'a list list" where
  "batch_sampler n xs =
     (if n = 0 \<or> xs = [] then [] else take n xs # batch_sampler n (drop n xs))"

declare batch_sampler.simps [simp del]

definition collate :: "(real list \<times> real list) list \<Rightarrow> tensor \<times> tensor" where
  "collate samples = (map fst samples, map snd samples)"

text \<open>\<^verbatim>\<open>for inputs, labels in dataloader\<close>: the batches of one pass over the loader.\<close>

definition iterate :: "DataLoader \<Rightarrow> generator \<Rightarrow> (tensor \<times> tensor) list \<times> generator" where
  "iterate dl g =
     (let (idx, g') = sampler dl g
      in (map (\<lambda>b. collate (map (\<lambda>i. dataset dl ! i) b)) (batch_sampler (batch_size dl) idx), g'))"

text \<open>\<^verbatim>\<open>len(dataloader)\<close>: the number of batches, the dataset size divided by the batch size, rounded up.\<close>

definition len_dataloader :: "DataLoader \<Rightarrow> nat" where
  "len_dataloader dl = (length (dataset dl) + batch_size dl - 1) div batch_size dl"

section \<open>Initialisation, loss, gradients and the optimizer\<close>

text \<open>
  \<^verbatim>\<open>LinearClassifier(input_dim)\<close>: weight and bias of the linear layer are drawn uniformly
  from \<open>[-1/sqrt input_dim, 1/sqrt input_dim)\<close>; a new module is in training mode and its
  parameters have no gradient yet.
\<close>

definition uniform_init :: "real \<Rightarrow> nat \<Rightarrow> generator \<Rightarrow> real list \<times> generator" where
  "uniform_init bound n g =
     (map (\<lambda>j. - bound + 2 * bound * uniform_source g (offset g + j)) [0..<n],
      g\<lparr>offset := offset g + n\<rparr>)"

definition LinearClassifier_init :: "nat \<Rightarrow> generator \<Rightarrow> LinearClassifier \<times> generator" where
  "LinearClassifier_init input_dim g =
     (let bound = (if 0 < input_dim then 1 / sqrt (real input_dim) else 0);
          (w, g1) = uniform_init bound input_dim g;
          (b, g2) = uniform_init bound 1 g1
      in (\<lparr>linear_weight = \<lparr>data = w, grad = None\<rparr>,
           linear_bias = \<lparr>data = b, grad = None\<rparr>,
           training = True\<rparr>, g2))"

text \<open>
  \<^verbatim>\<open>.mean()\<close> over all entries. Of no entries the library gives NaN, which has no
  counterpart here; the tensors the script averages are a batch of losses and the 100
  comparisons of the evaluation cell, never empty.
\<close>

definition mean :: "real list \<Rightarrow> real" where
  "mean xs = sum_list xs / real (length xs)"

definition same_shape :: "tensor \<Rightarrow> tensor \<Rightarrow> bool" where
  "same_shape a b = (map length a = map length b)"

text \<open>
  \<^verbatim>\<open>nn.BCELoss()\<close> with mean reduction. The library refuses a target of another shape and
  an input outside \<open>[0, 1]\<close>, and clamps each logarithm at \<open>-100\<close>.
\<close>

definition clamped_log :: "real \<Rightarrow> real" where
  "clamped_log p = (if p \<le> 0 then - 100 else max (ln p) (- 100))"

definition bce :: "real \<Rightarrow> real \<Rightarrow> real" where
  "bce p t = - (t * clamped_log p + (1 - t) * clamped_log (1 - p))"

definition BCELoss :: "tensor \<Rightarrow> tensor \<Rightarrow> error + real" where
  "BCELoss input target =
     (if \<not> same_shape input target then Inl ShapeMismatch
      else if \<not> list_all (\<lambda>p. 0 \<le> p \<and> p \<le> 1) (concat input) then Inl ValueOutOfRange
      else Inr (mean (map2 bce (concat input) (concat target))))"

text \<open>
  \<^verbatim>\<open>loss.backward()\<close>: the gradient of the loss is pushed back through the loss, the sigmoid
  and the linear layer, and added to the \<^verbatim>\<open>.grad\<close> of weight and bias.
\<close>

definition bce_backward :: "real list \<Rightarrow> real list \<Rightarrow> real list" where
  "bce_backward ps ts =
     map2 (\<lambda>p t. (p - t) / max ((1 - p) * p) (1 / 10 ^ 12) / real (length ps)) ps ts"

definition sigmoid_backward :: "real list \<Rightarrow> real list \<Rightarrow> real list" where
  "sigmoid_backward gs outs = map2 (\<lambda>g out. g * (1 - out) * out) gs outs"

definition linear_backward :: "tensor \<Rightarrow> nat \<Rightarrow> real list \<Rightarrow> real list \<times> real list" where
  "linear_backward x d gs =
     (map (\<lambda>j. sum_list (map2 (\<lambda>g r. g * r ! j) gs x)) [0..<d], [sum_list gs])"

definition accumulate :: "real list \<Rightarrow> parameter \<Rightarrow> parameter" where
  "accumulate g p = p\<lparr>grad := Some (case grad p of None \<Rightarrow> g | Some g0 \<Rightarrow> map2 (+) g0 g)\<rparr>"

definition backward :: "LinearClassifier \<Rightarrow> tensor \<Rightarrow> tensor \<Rightarrow> tensor \<Rightarrow> LinearClassifier" where
  "backward m inputs outputs labels =
     (let gs = sigmoid_backward (bce_backward (concat outputs) (concat labels)) (concat outputs);
          (gw, gb) = linear_backward inputs (length (data (linear_weight m))) gs
      in m\<lparr>linear_weight := accumulate gw (linear_weight m),
            linear_bias := accumulate gb (linear_bias m)\<rparr>)"

text \<open>\<^verbatim>\<open>optimizer.zero_grad()\<close> drops the gradients of the parameters the optimizer holds.\<close>

definition zero_grad :: "LinearClassifier \<Rightarrow> LinearClassifier" where
  "zero_grad m = m\<lparr>linear_weight := (linear_weight m)\<lparr>grad := None\<rparr>,
                    linear_bias := (linear_bias m)\<lparr>grad := None\<rparr>\<rparr>"

text \<open>
  \<^verbatim>\<open>optim.Adam(model.parameters(), lr=0.01)\<close> with the library's default coefficients. The
  optimizer keeps, for each parameter, a step count and the two running averages, created
  as zeros at the parameter's first step.
\<close>

record adam_state =
  step :: nat
  exp_avg :: "real list"
  exp_avg_sq :: "real list"

record Adam =
  lr :: real
  beta1 :: real
  beta2 :: real
  eps :: real
  weight_state :: "adam_state option"
  bias_state :: "adam_state option"

definition Adam_init :: "real \<Rightarrow> Adam" where
  "Adam_init l = \<lparr>lr = l, beta1 = 9 / 10, beta2 = 999 / 1000, eps = 1 / 10 ^ 8,
                  weight_state = None, bias_state = None\<rparr>"

definition adam_update :: "Adam \<Rightarrow> parameter \<Rightarrow> adam_state option \<Rightarrow> parameter \<times> adam_state option" where
  "adam_update opt p st =
     (case grad p of
        None \<Rightarrow> (p, st)
      | Some g \<Rightarrow>
          (let s0 = (case st of
                       None \<Rightarrow> \<lparr>step = 0, exp_avg = replicate (length (data p)) 0,
                                 exp_avg_sq = replicate (length (data p)) 0\<rparr>
                     | Some s \<Rightarrow> s);
               t = step s0 + 1;
               m = map2 (\<lambda>a d. beta1 opt * a + (1 - beta1 opt) * d) (exp_avg s0) g;
               v = map2 (\<lambda>a d. beta2 opt * a + (1 - beta2 opt) * d * d) (exp_avg_sq s0) g;
               bias_correction1 = 1 - beta1 opt ^ t;
               bias_correction2 = 1 - beta2 opt ^ t;
               step_size = lr opt / bias_correction1;
               w = map2 (\<lambda>w (a, b). w - step_size * (a / (sqrt b / sqrt bias_correction2 + eps opt)))
                        (data p) (zip m v)
           in (p\<lparr>data := w\<rparr>, Some \<lparr>step = t, exp_avg = m, exp_avg_sq = v\<rparr>)))"

text \<open>\<^verbatim>\<open>optimizer.step()\<close> updates every parameter of the model in place.\<close>

definition optimizer_step :: "Adam \<Rightarrow> LinearClassifier \<Rightarrow> LinearClassifier \<times> Adam" where
  "optimizer_step opt m =
     (let (w, sw) = adam_update opt (linear_weight m) (weight_state opt);
          (b, sb) = adam_update opt (linear_bias m) (bias_state opt)
      in (m\<lparr>linear_weight := w, linear_bias := b\<rparr>, opt\<lparr>weight_state := sw, bias_state := sb\<rparr>))"

section \<open>The script\<close>

text \<open>
  What the cells leave behind: the data, the loader, the model, the optimizer, the
  generator and the lines printed so far.
\<close>

datatype line = LossLine nat nat real | AccuracyLine real

record notebook =
  X :: tensor
  y :: tensor
  dataloader :: DataLoader
  model :: LinearClassifier
  optimizer :: Adam
  gen :: generator
  stdout :: "line list"

text \<open>
  The cells before the training loop: \<^verbatim>\<open>X = torch.randn(100, 2)\<close>, the labels, the dataset
  and \<^verbatim>\<open>DataLoader(dataset, batch_size=32, shuffle=True)\<close>, then the model with
  \<^verbatim>\<open>input_dim=2\<close> and the optimizer with \<^verbatim>\<open>lr=0.01\<close>.
\<close>

definition init_cells :: "generator \<Rightarrow> error + notebook" where
  "init_cells g0 =
     (let (t, g1) = randn 100 2 g0
      in case make_labels t of
           Inl e \<Rightarrow> Inl e
         | Inr l \<Rightarrow>
             (case TensorDataset t l of
                Inl e \<Rightarrow> Inl e
              | Inr ds \<Rightarrow>
                  (let (m, g2) = LinearClassifier_init 2 g1
                   in Inr \<lparr>X = t, y = l,
                           dataloader = \<lparr>dataset = ds, batch_size = 32, shuffle = True\<rparr>,
                           model = m, optimizer = Adam_init (1 / 100), gen = g2, stdout = []\<rparr>)))"

text \<open>
  The body of the inner loop: forward pass, loss, \<^verbatim>\<open>zero_grad\<close>, \<^verbatim>\<open>backward\<close>,
  \<^verbatim>\<open>step\<close>, and \<^verbatim>\<open>running_loss += loss.item()\<close>.
\<close>

definition train_batch ::
  "LinearClassifier \<times> Adam \<times> real \<Rightarrow> tensor \<times> tensor \<Rightarrow> error + LinearClassifier \<times> Adam \<times> real" where
  "train_batch st batch =
     (let (m, opt, running_loss) = st; (inputs, labels) = batch
      in case forward m inputs of
           Inl e \<Rightarrow> Inl e
         | Inr outputs \<Rightarrow>
             (case BCELoss outputs labels of
                Inl e \<Rightarrow> Inl e
              | Inr loss \<Rightarrow>
                  (let m1 = zero_grad m;
                       m2 = backward m1 inputs outputs labels;
                       (m3, opt') = optimizer_step opt m2
                   in Inr (m3, opt', running_loss + loss))))"

fun train_batches ::
  "LinearClassifier \<times> Adam \<times> real \<Rightarrow> (tensor \<times> tensor) list \<Rightarrow> error + LinearClassifier \<times> Adam \<times> real" where
  "train_batches st [] = Inr st"
| "train_batches st (b # bs) =
     (case train_batch st b of Inl e \<Rightarrow> Inl e | Inr st' \<Rightarrow> train_batches st' bs)"

text \<open>
  One round of the outer loop: \<^verbatim>\<open>model.train()\<close>, \<^verbatim>\<open>running_loss = 0.0\<close>, the pass over the
  loader, and the loss line when \<^verbatim>\<open>(epoch+1) % 10 == 0\<close>.
\<close>

definition train_epoch :: "nat \<Rightarrow> notebook \<Rightarrow> nat \<Rightarrow> error + notebook" where
  "train_epoch epochs nb epoch =
     (let m = (model nb)\<lparr>training := True\<rparr>;
          (batches, g') = iterate (dataloader nb) (gen nb)
      in case train_batches (m, optimizer nb, 0) batches of
           Inl e \<Rightarrow> Inl e
         | Inr (m', opt', running_loss) \<Rightarrow>
             (let nb' = nb\<lparr>model := m', optimizer := opt', gen := g'\<rparr>
              in if (epoch + 1) mod 10 = 0
                 then (if len_dataloader (dataloader nb) = 0 then Inl ZeroDivision
                       else Inr (nb'\<lparr>stdout := stdout nb @
                              [LossLine (epoch + 1) epochs
                                 (running_loss / real (len_dataloader (dataloader nb)))]\<rparr>))
                 else Inr nb'))"

fun train_loop :: "nat \<Rightarrow> notebook \<Rightarrow> nat list \<Rightarrow> error + notebook" where
  "train_loop epochs nb [] = Inr nb"
| "train_loop epochs nb (e # es) =
     (case train_epoch epochs nb e of Inl err \<Rightarrow> Inl err | Inr nb' \<Rightarrow> train_loop epochs nb' es)"

text \<open>\<^verbatim>\<open>epochs = 100\<close>; \<^verbatim>\<open>for epoch in range(epochs)\<close>.\<close>

definition train :: "notebook \<Rightarrow> error + notebook" where
  "train nb = train_loop 100 nb [0..<100]"

text \<open>
  The evaluation cell: \<^verbatim>\<open>model.eval()\<close>, \<^verbatim>\<open>predicted = (model(X) > 0.5).float()\<close>,
  \<^verbatim>\<open>accuracy = (predicted == y).float().mean()\<close> and the accuracy line, printed with four
  decimals. The comparison is elementwise; along each of the two dimensions the sizes
  must be equal, or one of them must be one, and then that row or entry is repeated to
  the size of the other tensor (broadcasting); otherwise the library raises.
\<close>

definition threshold :: "tensor \<Rightarrow> tensor" where
  "threshold outputs = map (map (\<lambda>p. if 1 / 2 < p then 1 else 0)) outputs"

definition expand :: "nat \<Rightarrow> 'a list \<Rightarrow> 'a list option" where
  "expand n xs =
     (if length xs = n then Some xs
      else if length xs = 1 then Some (replicate n (hd xs))
      else None)"

definition broadcast :: "'a list \<Rightarrow> 'b list \<Rightarrow> ('a \<times> 'b) list option" where
  "broadcast xs ys =
     (let n = (if length xs = 1 then length ys else length xs)
      in case expand n xs of
           None \<Rightarrow> None
         | Some xs' \<Rightarrow> (case expand n ys of None \<Rightarrow> None | Some ys' \<Rightarrow> Some (zip xs' ys')))"

definition tensor_eq :: "tensor \<Rightarrow> tensor \<Rightarrow> error + tensor" where
  "tensor_eq a b =
     (case broadcast a b of
        None \<Rightarrow> Inl ShapeMismatch
      | Some rows \<Rightarrow>
          (case those (map (\<lambda>(r, s). broadcast r s) rows) of
             None \<Rightarrow> Inl ShapeMismatch
           | Some rs \<Rightarrow> Inr (map (map (\<lambda>(u, v). if u = v then 1 else 0)) rs)))"

definition format_4f :: "real \<Rightarrow> real" where
  "format_4f v =
     (let s = v * 10000; f = \<lfloor>s\<rfloor>
      in (if s - of_int f < 1 / 2 then of_int f
          else if 1 / 2 < s - of_int f then of_int (f + 1)
          else if even f then of_int f else of_int (f + 1)) / 10000)"

definition evaluate :: "notebook \<Rightarrow> error + notebook" where
  "evaluate nb =
     (let m = (model nb)\<lparr>training := False\<rparr>
      in case forward m (X nb) of
           Inl e \<Rightarrow> Inl e
         | Inr outputs \<Rightarrow>
             (let predicted = threshold outputs
              in case tensor_eq predicted (y nb) of
                   Inl e \<Rightarrow> Inl e
                 | Inr eq \<Rightarrow>
                     (let accuracy = mean (concat eq)
                      in Inr (nb\<lparr>model := m,
                                 stdout := stdout nb @ [AccuracyLine (format_4f accuracy)]\<rparr>))))"

text \<open>The whole notebook, run top to bottom on a generator.\<close>

definition run :: "generator \<Rightarrow> error + notebook" where
  "run g =
     (case init_cells g of
        Inl e \<Rightarrow> Inl e
      | Inr nb \<Rightarrow> (case train nb of Inl e \<Rightarrow> Inl e | Inr nb' \<Rightarrow> evaluate nb'))"

section \<open>Shapes\<close>

text \<open>
  The shapes the script relies on: a model for inputs of dimension \<open>d\<close> has a weight row of
  length \<open>d\<close> and one bias; the optimizer's running averages, once created, have the shape
  of their parameter; the notebook holds 100 samples of dimension 2, their labels, and the
  loader over them.
\<close>

definition model_shape :: "nat \<Rightarrow> LinearClassifier \<Rightarrow> bool" where
  "model_shape d m = (length (data (linear_weight m)) = d \<and> length (data (linear_bias m)) = 1)"

definition adam_state_shape :: "nat \<Rightarrow> adam_state option \<Rightarrow> bool" where
  "adam_state_shape d st =
     (case st of None \<Rightarrow> True | Some s \<Rightarrow> length (exp_avg s) = d \<and> length (exp_avg_sq s) = d)"

definition optimizer_shape :: "nat \<Rightarrow> Adam \<Rightarrow> bool" where
  "optimizer_shape d opt =
     (adam_state_shape d (weight_state opt) \<and> adam_state_shape 1 (bias_state opt))"

definition batch_shape :: "nat \<Rightarrow> tensor \<times> tensor \<Rightarrow> bool" where
  "batch_shape d b = (has_shape (length (fst b)) d (fst b) \<and> has_shape (length (fst b)) 1 (snd b))"

definition notebook_ok :: "notebook \<Rightarrow> bool" where
  "notebook_ok nb =
     (has_shape 100 2 (X nb) \<and> has_shape 100 1 (y nb)
      \<and> dataloader nb = \<lparr>dataset = zip (X nb) (y nb), batch_size = 32, shuffle = True\<rparr>
      \<and> model_shape 2 (model nb) \<and> optimizer_shape 2 (optimizer nb))"

text \<open>The number of optimizer steps taken so far, as the optimizer records it for the weight.\<close>

definition steps_taken :: "Adam \<Rightarrow> nat" where
  "steps_taken opt = (case weight_state opt of None \<Rightarrow> 0 | Some s \<Rightarrow> step s)"

section \<open>Loss values of a pass\<close>

text \<open>
  \<^verbatim>\<open>loss = criterion(model(inputs), labels)\<close> for one batch, and these values for the
  batches of one pass, in order: the loss of a batch is computed with the model that the
  training steps on the batches before it have left.
\<close>

definition batch_loss :: "LinearClassifier \<Rightarrow> tensor \<times> tensor \<Rightarrow> error + real" where
  "batch_loss m batch =
     (case forward m (fst batch) of Inl e \<Rightarrow> Inl e | Inr outputs \<Rightarrow> BCELoss outputs (snd batch))"

fun pass_losses :: "LinearClassifier \<times> Adam \<Rightarrow> (tensor \<times> tensor) list \<Rightarrow> real list" where
  "pass_losses st [] = []"
| "pass_losses st (b # bs) =
     (case batch_loss (fst st) b of
        Inl e \<Rightarrow> []
      | Inr loss \<Rightarrow>
          loss # (case train_batch (fst st, snd st, 0) b of
                    Inl e \<Rightarrow> []
                  | Inr (m', opt', l) \<Rightarrow> pass_losses (m', opt') bs))"

section \<open>Reading the output\<close>

text \<open>The epoch number and the total that a loss line shows; the accuracy line shows neither.\<close>

fun line_epoch :: "line \<Rightarrow> (nat \<times> nat) option" where
  "line_epoch (LossLine k n v) = Some (k, n)"
| "line_epoch (AccuracyLine v) = None"

text \<open>The shapes of \<^verbatim>\<open>model.parameters()\<close>, in order.\<close>

definition parameter_shapes :: "LinearClassifier \<Rightarrow> nat list" where
  "parameter_shapes m = map (\<lambda>p. length (data p)) (parameters m)"

section \<open>Generators that yield the same values\<close>

text \<open>
  Two generators yield the same values when their sources agree from their cursors on,
  wherever the cursors stand. Two notebook states agree up to the generator when all else
  is equal and the generators yield the same values.
\<close>

definition same_draws :: "generator \<Rightarrow> generator \<Rightarrow> bool" where
  "same_draws g1 g2 =
     (\<forall>n. normal_source g1 (offset g1 + n) = normal_source g2 (offset g2 + n)
        \<and> uniform_source g1 (offset g1 + n) = uniform_source g2 (offset g2 + n)
        \<and> random_source g1 (offset g1 + n) = random_source g2 (offset g2 + n))"

definition same_state :: "notebook \<Rightarrow> notebook \<Rightarrow> bool" where
  "same_state nb1 nb2 =
     (X nb1 = X nb2 \<and> y nb1 = y nb2 \<and> dataloader nb1 = dataloader nb2
      \<and> model nb1 = model nb2 \<and> optimizer nb1 = optimizer nb2 \<and> stdout nb1 = stdout nb2
      \<and> same_draws (gen nb1) (gen nb2))"

section \<open>Weighting by batch size, and a run on constant data\<close>

text \<open>
  The mean loss per sample of one pass, for comparison with what the script prints: each
  batch loss is the mean over its batch, so it counts with the number of samples in its
  batch.
\<close>

definition per_sample_mean :: "(tensor \<times> tensor) list \<Rightarrow> real list \<Rightarrow> real" where
  "per_sample_mean batches losses =
     sum_list (map2 (\<lambda>b l. real (length (fst b)) * l) batches losses)
       / real (sum_list (map (\<lambda>b. length (fst b)) batches))"

text \<open>
  A generator whose normal draws are all zero and whose uniform draws are all one half:
  the features and the labels it gives are all zero, and the model starts at zero.
\<close>

definition zero_generator :: generator where
  "zero_generator = \<lparr>normal_source = (\<lambda>n. 0), uniform_source = (\<lambda>n. 1 / 2),
                      random_source = (\<lambda>n. 0), offset = 0\<rparr>"

text \<open>
  What holds of model and optimizer throughout such a run: the script's shapes and
  optimizer settings, a bias that is not positive, and running averages for the bias that
  are not negative. A batch of such a run is a positive number of zero rows with zero
  labels.
\<close>

definition descending_bias :: "LinearClassifier \<Rightarrow> Adam \<Rightarrow> bool" where
  "descending_bias m opt =
     (model_shape 2 m \<and> optimizer_shape 2 opt \<and> hd (data (linear_bias m)) \<le> 0
      \<and> lr opt = 1 / 100 \<and> beta1 opt = 9 / 10 \<and> beta2 opt = 999 / 1000 \<and> eps opt = 1 / 10 ^ 8
      \<and> (case bias_state opt of
            None \<Rightarrow> True
          | Some s \<Rightarrow> 0 \<le> hd (exp_avg s) \<and> 0 \<le> hd (exp_avg_sq s)))"

definition zero_batch :: "tensor \<times> tensor \<Rightarrow> bool" where
  "zero_batch b =
     (0 < length (fst b) \<and> fst b = replicate (length (fst b)) [0, 0]
      \<and> snd b = replicate (length (fst b)) [0])"

text \<open>A notebook state of such a run.\<close>

definition constant_data :: "notebook \<Rightarrow> bool" where
  "constant_data nb =
     (notebook_ok nb \<and> X nb = replicate 100 [0, 0] \<and> y nb = replicate 100 [0]
      \<and> descending_bias (model nb) (optimizer nb))"

section \<open>Concrete inputs\<close>

text \<open>A model with fixed parameters and a generator with fixed draws, used to instantiate the theorems below.\<close>

definition example_model :: LinearClassifier where
  "example_model = \<lparr>linear_weight = \<lparr>data = [1, - 2], grad = None\<rparr>,
                     linear_bias = \<lparr>data = [3], grad = None\<rparr>, training = True\<rparr>"

definition example_generator :: generator where
  "example_generator = \<lparr>normal_source = (\<lambda>n. real n - 7),
                         uniform_source = (\<lambda>n. 1 / 2),
                         random_source = (\<lambda>n. 7 * n + 3), offset = 0\<rparr>"

text \<open>A notebook state with 100 samples on a line, the model above in training mode and nothing printed.\<close>

definition example_X :: tensor where
  "example_X = map (\<lambda>i. [real i - 50, 1]) [0..<100]"

definition example_y :: tensor where
  "example_y = map (\<lambda>i. [if 49 < i then 1 else 0]) [0..<100]"

definition example_notebook :: notebook where
  "example_notebook =
     \<lparr>X = example_X, y = example_y,
      dataloader = \<lparr>dataset = zip example_X example_y, batch_size = 32, shuffle = True\<rparr>,
      model = example_model, optimizer = Adam_init (1 / 100), gen = example_generator,
      stdout = []\<rparr>"




text \<open>
  A model built for inputs of dimension 3, and a notebook state that pairs it with data of
  dimension 2: the shape mismatch the library refuses.
\<close>

definition wide_model :: LinearClassifier where
  "wide_model = \<lparr>linear_weight = \<lparr>data = [1, 1, 1], grad = None\<rparr>,
                  linear_bias = \<lparr>data = [0], grad = None\<rparr>, training = True\<rparr>"

definition broken_notebook :: notebook where
  "broken_notebook =
     \<lparr>X = [[1, 2]], y = [[1]],
      dataloader = \<lparr>dataset = [([1, 2], [1])], batch_size = 32, shuffle = True\<rparr>,
      model = wide_model, optimizer = Adam_init (1 / 100), gen = example_generator,
      stdout = []\<rparr>"

text \<open>The example generator with five values already drawn and its sources shifted to match.\<close>

definition shifted_generator :: generator where
  "shifted_generator = \<lparr>normal_source = (\<lambda>n. real n - 12),
                         uniform_source = (\<lambda>n. 1 / 2),
                         random_source = (\<lambda>n. 7 * (n - 5) + 3), offset = 5\<rparr>"

text \<open>A notebook state with two samples and three labels.\<close>

definition mislabelled_notebook :: notebook where
  "mislabelled_notebook =
     \<lparr>X = [[1, 2], [1, 2]], y = [[1], [0], [1]],
      dataloader = \<lparr>dataset = [], batch_size = 32, shuffle = True\<rparr>,
      model = example_model, optimizer = Adam_init (1 / 100), gen = example_generator,
      stdout = []\<rparr>"




section \<open>The forward pass\<close>

lemma sigmoid_pos: "0 < sigmoid z"
  by (simp add: sigmoid_def add_pos_pos)

lemma sigmoid_less_one: "sigmoid z < 1"
  by (simp add: sigmoid_def add_pos_pos)

lemma sigmoid_range: "0 \<le> sigmoid z \<and> sigmoid z \<le> 1"
  using sigmoid_pos [of z] sigmoid_less_one [of z] by simp

lemma forward_Inr:
  assumes "list_all (\<lambda>r. length r = length (data (linear_weight m))) x"
    and "length (data (linear_bias m)) = 1"
  shows "forward m x =
    Inr (map (\<lambda>r. [sigmoid (dot r (data (linear_weight m)) + hd (data (linear_bias m)))]) x)"
proof -
  from assms(2) obtain b where b: "data (linear_bias m) = [b]"
    by (cases "data (linear_bias m)") auto
  show ?thesis using assms(1) by (simp add: forward_def linear_apply_def b)
qed

section \<open>The generated data\<close>

lemma randn_shape: "has_shape rows cols (fst (randn rows cols g))"
  by (simp add: randn_def has_shape_def list_all_iff)

lemma make_labels_Inr:
  assumes "list_all (\<lambda>r. 1 < length r) t"
  shows "make_labels t = Inr (map (\<lambda>r. [if 0 < r ! 0 + r ! 1 then 1 else 0]) t)"
proof -
  have c0: "select_column 0 t = Inr (map (\<lambda>r. r ! 0) t)"
    using assms by (auto simp: select_column_def list_all_iff)
  have c1: "select_column 1 t = Inr (map (\<lambda>r. r ! 1) t)"
    using assms by (auto simp: select_column_def list_all_iff)
  have "map2 (+) (map (\<lambda>r. r ! 0) t) (map (\<lambda>r. r ! 1) t) = map (\<lambda>r. r ! 0 + r ! 1) t"
    by (induction t) simp_all
  then show ?thesis unfolding make_labels_def c0 c1 by (simp add: comp_def)
qed

lemma init_cells_Inr:
  "\<exists>nb. init_cells g = Inr nb
     \<and> X nb = fst (randn 100 2 g)
     \<and> y nb = map (\<lambda>r. [if 0 < r ! 0 + r ! 1 then 1 else 0]) (X nb)
     \<and> dataloader nb = \<lparr>dataset = zip (X nb) (y nb), batch_size = 32, shuffle = True\<rparr>
     \<and> model nb = fst (LinearClassifier_init 2 (snd (randn 100 2 g)))
     \<and> optimizer nb = Adam_init (1 / 100)
     \<and> gen nb = snd (LinearClassifier_init 2 (snd (randn 100 2 g)))
     \<and> stdout nb = []"
proof -
  obtain t g1 where r: "randn 100 2 g = (t, g1)" by (cases "randn 100 2 g")
  have sh: "has_shape 100 2 t" using randn_shape [of 100 2 g] by (simp add: r)
  then have "list_all (\<lambda>r. 1 < length r) t"
    by (auto simp: has_shape_def list_all_iff)
  note ml = make_labels_Inr [OF this]
  obtain m g2 where i: "LinearClassifier_init 2 g1 = (m, g2)" by (cases "LinearClassifier_init 2 g1")
  show ?thesis
    by (simp add: init_cells_def r ml TensorDataset_def i)
qed

text \<open>
  C2: whatever the generator yields, the first cells succeed and leave a feature tensor
  \<open>X\<close> of shape \<open>[100, 2]\<close>, filled from the normal draws, and a label tensor \<open>y\<close> of shape
  \<open>[100, 1]\<close> whose row \<open>i\<close> is \<open>1\<close> when \<open>X[i,0] + X[i,1] > 0\<close> and \<open>0\<close> otherwise: a
  function of the features of sample \<open>i\<close> alone.
\<close>

theorem generated_dataset:
  "\<exists>nb. init_cells g = Inr nb \<and> X nb = fst (randn 100 2 g)
     \<and> has_shape 100 2 (X nb) \<and> has_shape 100 1 (y nb)
     \<and> (\<forall>i<100. y nb ! i = [if 0 < X nb ! i ! 0 + X nb ! i ! 1 then 1 else 0])"
proof -
  from init_cells_Inr [of g] obtain nb where nb: "init_cells g = Inr nb"
    "X nb = fst (randn 100 2 g)"
    "y nb = map (\<lambda>r. [if 0 < r ! 0 + r ! 1 then 1 else 0]) (X nb)" by blast
  have sx: "has_shape 100 2 (X nb)" by (simp add: nb(2) randn_shape)
  then have len: "length (X nb) = 100" by (simp add: has_shape_def)
  have sy: "has_shape 100 1 (y nb)"
    by (simp add: nb(3) has_shape_def len list_all_iff)
  have "\<forall>i<100. y nb ! i = [if 0 < X nb ! i ! 0 + X nb ! i ! 1 then 1 else 0]"
    by (simp add: nb(3) len)
  with nb(1,2) sx sy show ?thesis by blast
qed

theorem generated_dataset_witness:
  "\<exists>nb. init_cells example_generator = Inr nb
     \<and> (3 :: nat) < 100 \<and> X nb ! 3 = [- 1, 0] \<and> y nb ! 3 = [0]
     \<and> (4 :: nat) < 100 \<and> X nb ! 4 = [1, 2] \<and> y nb ! 4 = [1]
     \<and> (0 :: nat) < 100 \<and> X nb ! 0 = [- 7, - 6] \<and> y nb ! 0 = [0]"
proof -
  have x: "map (\<lambda>i. fst (randn 100 2 example_generator) ! i) [3, 4, 0] = [[- 1, 0], [1, 2], [- 7, - 6]]"
    by (simp add: randn_def example_generator_def numeral_2_eq_2)
  from generated_dataset [of example_generator] obtain nb where
    nb: "init_cells example_generator = Inr nb" "X nb = fst (randn 100 2 example_generator)"
    "\<forall>i<100. y nb ! i = [if 0 < X nb ! i ! 0 + X nb ! i ! 1 then 1 else 0]" by blast
  from nb(3) have "y nb ! 3 = [if 0 < X nb ! 3 ! 0 + X nb ! 3 ! 1 then 1 else 0]"
    "y nb ! 4 = [if 0 < X nb ! 4 ! 0 + X nb ! 4 ! 1 then 1 else 0]"
    "y nb ! 0 = [if 0 < X nb ! 0 ! 0 + X nb ! 0 ! 1 then 1 else 0]" by simp_all
  with nb(1,2) x show ?thesis by simp
qed

section \<open>Shuffling and batching\<close>

lemma swap_loop_mset:
  assumes "list_all (\<lambda>i. i < n - 1) js" and "length r = n"
  shows "mset (fold (\<lambda>i r. let z = f i mod (n - i) in r[i := r ! (z + i), z + i := r ! i]) js r)
           = mset r"
  using assms
proof (induction js arbitrary: r)
  case Nil
  then show ?case by simp
next
  case (Cons j js)
  let ?z = "f j mod (n - j)"
  let ?r = "r[j := r ! (?z + j), ?z + j := r ! j]"
  from Cons.prems have j: "j < n - 1" by simp
  then have "0 < n - j" by simp
  then have "?z < n - j" by (rule mod_less_divisor)
  with j Cons.prems(2) have in_range: "j < length r" "?z + j < length r" by linarith+
  have len: "length ?r = n" using Cons.prems(2) by simp
  have "mset ?r = mset r" using mset_swap [OF in_range(2) in_range(1)] by simp
  moreover have "list_all (\<lambda>i. i < n - 1) js" using Cons.prems(1) by simp
  ultimately show ?case using Cons.IH [OF _ len] by (simp add: Let_def)
qed

lemma randperm_mset: "mset (fst (randperm n g)) = mset [0..<n]"
proof -
  have "list_all (\<lambda>i. i < n - 1) [0..<n - 1]" by (simp add: list_all_iff)
  from swap_loop_mset [OF this, of "[0..<n]" "\<lambda>i. random_source g (offset g + i)"]
  show ?thesis by (simp add: randperm_def)
qed

lemma sampler_mset: "mset (fst (sampler dl g)) = mset [0..<length (dataset dl)]"
  by (simp add: sampler_def randperm_mset)

lemma sampler_length: "length (fst (sampler dl g)) = length (dataset dl)"
  using arg_cong [OF sampler_mset [of dl g], of size] by simp

lemma sampler_set: "set (fst (sampler dl g)) = {0..<length (dataset dl)}"
  using arg_cong [OF sampler_mset [of dl g], of set_mset] by simp

lemma concat_batch_sampler: "0 < n \<Longrightarrow> concat (batch_sampler n xs) = xs"
proof (induction n xs rule: batch_sampler.induct)
  case (1 n xs)
  show ?case
  proof (cases "xs = []")
    case True
    then show ?thesis by (simp add: batch_sampler.simps [of n "[]"])
  next
    case False
    with 1 show ?thesis by (simp add: batch_sampler.simps [of n xs])
  qed
qed

lemma batch_sampler_subset: "b \<in> set (batch_sampler n xs) \<Longrightarrow> set b \<subseteq> set xs"
proof (induction n xs rule: batch_sampler.induct)
  case (1 n xs)
  show ?case
  proof (cases "n = 0 \<or> xs = []")
    case True
    with "1.prems" show ?thesis by (simp add: batch_sampler.simps [of n xs])
  next
    case False
    with "1.prems" have "b = take n xs \<or> b \<in> set (batch_sampler n (drop n xs))"
      by (simp add: batch_sampler.simps [of n xs])
    then show ?thesis
    proof
      assume "b = take n xs"
      then show ?thesis by (simp add: set_take_subset)
    next
      assume "b \<in> set (batch_sampler n (drop n xs))"
      with 1 False have "set b \<subseteq> set (drop n xs)" by simp
      then show ?thesis using set_drop_subset [of n xs] by blast
    qed
  qed
qed

lemma batch_sampler_100:
  assumes "length xs = 100"
  shows "batch_sampler 32 xs = [take 32 xs, take 32 (drop 32 xs), take 32 (drop 64 xs), drop 96 xs]"
proof -
  have ne: "xs \<noteq> []" using assms by auto
  have a: "batch_sampler 32 xs = take 32 xs # batch_sampler 32 (drop 32 xs)"
    using ne by (simp add: batch_sampler.simps [of 32 xs])
  have b: "batch_sampler 32 (drop 32 xs) = take 32 (drop 32 xs) # batch_sampler 32 (drop 64 xs)"
    using assms by (simp add: batch_sampler.simps [of 32 "drop 32 xs"])
  have c: "batch_sampler 32 (drop 64 xs) = take 32 (drop 64 xs) # batch_sampler 32 (drop 96 xs)"
    using assms by (simp add: batch_sampler.simps [of 32 "drop 64 xs"])
  have d: "batch_sampler 32 (drop 96 xs) = [drop 96 xs]"
    using assms by (simp add: batch_sampler.simps [of 32 "drop 96 xs"] batch_sampler.simps [of 32 "[]"])
  show ?thesis by (simp add: a b c d)
qed

lemma batch_sampler_100_lengths:
  assumes "length xs = 100"
  shows "map length (batch_sampler 32 xs) = [32, 32, 32, 4]"
  by (simp add: batch_sampler_100 [OF assms] assms)

section \<open>One training step\<close>

lemma adam_update_shape:
  assumes "length (data p) = d" and "adam_state_shape d st"
    and "case grad p of None \<Rightarrow> True | Some g \<Rightarrow> length g = d"
  shows "length (data (fst (adam_update opt p st))) = d
         \<and> adam_state_shape d (snd (adam_update opt p st))
         \<and> grad (fst (adam_update opt p st)) = grad p"
proof (cases "grad p")
  case None
  with assms show ?thesis by (simp add: adam_update_def)
next
  case (Some g)
  with assms(3) have g: "length g = d" by simp
  show ?thesis
  proof (cases st)
    case None
    with Some g assms(1) show ?thesis
      by (simp add: adam_update_def adam_state_shape_def Let_def)
  next
    case (Some s)
    with \<open>grad p = Some g\<close> g assms(1,2) show ?thesis
      by (simp add: adam_update_def adam_state_shape_def Let_def)
  qed
qed

lemma adam_update_step:
  "grad p = Some g \<Longrightarrow>
   (case snd (adam_update opt p st) of None \<Rightarrow> 0 | Some s \<Rightarrow> step s)
     = (case st of None \<Rightarrow> 0 | Some s \<Rightarrow> step s) + 1"
  by (cases st) (simp_all add: adam_update_def Let_def)

lemma backward_zero_grad:
  "backward (zero_grad m) inputs outputs labels =
     m\<lparr>linear_weight := (linear_weight m)\<lparr>grad := Some (fst (linear_backward inputs
           (length (data (linear_weight m)))
           (sigmoid_backward (bce_backward (concat outputs) (concat labels)) (concat outputs))))\<rparr>,
       linear_bias := (linear_bias m)\<lparr>grad := Some (snd (linear_backward inputs
           (length (data (linear_weight m)))
           (sigmoid_backward (bce_backward (concat outputs) (concat labels)) (concat outputs))))\<rparr>\<rparr>"
  by (simp add: backward_def zero_grad_def accumulate_def Let_def split_beta)

lemma linear_backward_lengths:
  "length (fst (linear_backward x d gs)) = d \<and> length (snd (linear_backward x d gs)) = 1"
  by (simp add: linear_backward_def)

lemma has_shape_lengths: "has_shape n c t \<Longrightarrow> map length t = replicate n c"
proof -
  assume h: "has_shape n c t"
  then have "map length t = map (\<lambda>_. c) t" by (auto simp: has_shape_def list_all_iff)
  also have "\<dots> = replicate n c" using h by (simp add: has_shape_def map_replicate_const)
  finally show ?thesis .
qed

lemma BCELoss_Inr:
  assumes "has_shape n 1 outputs" and "has_shape n 1 labels"
    and "list_all (\<lambda>p. 0 \<le> p \<and> p \<le> 1) (concat outputs)"
  shows "BCELoss outputs labels = Inr (mean (map2 bce (concat outputs) (concat labels)))"
proof -
  have "same_shape outputs labels"
    using has_shape_lengths [OF assms(1)] has_shape_lengths [OF assms(2)]
    by (simp add: same_shape_def)
  with assms(3) show ?thesis by (simp add: BCELoss_def)
qed

lemma train_batch_Inr:
  assumes m: "model_shape d m" and o: "optimizer_shape d opt" and b: "batch_shape d batch"
  shows "\<exists>m' opt' loss. train_batch (m, opt, running_loss) batch = Inr (m', opt', running_loss + loss)
           \<and> (case forward m (fst batch) of Inl e \<Rightarrow> False
                | Inr outputs \<Rightarrow> BCELoss outputs (snd batch) = Inr loss)
           \<and> model_shape d m' \<and> optimizer_shape d opt' \<and> training m' = training m
           \<and> steps_taken opt' = steps_taken opt + 1"
proof -
  obtain inputs labels where batch: "batch = (inputs, labels)" by (cases batch)
  let ?n = "length inputs"
  from b have rows: "list_all (\<lambda>r. length r = length (data (linear_weight m))) inputs"
    and lab: "has_shape ?n 1 labels"
    using m by (simp_all add: batch_shape_def batch has_shape_def model_shape_def)
  from m have bias: "length (data (linear_bias m)) = 1" by (simp add: model_shape_def)
  let ?outputs = "map (\<lambda>r. [sigmoid (dot r (data (linear_weight m)) + hd (data (linear_bias m)))]) inputs"
  have fw: "forward m inputs = Inr ?outputs" by (rule forward_Inr [OF rows bias])
  have osh: "has_shape ?n 1 ?outputs" by (simp add: has_shape_def list_all_iff)
  have orange: "list_all (\<lambda>p. 0 \<le> p \<and> p \<le> 1) (concat ?outputs)"
    by (simp add: list_all_iff sigmoid_range)
  let ?loss = "mean (map2 bce (concat ?outputs) (concat labels))"
  have loss: "BCELoss ?outputs labels = Inr ?loss" by (rule BCELoss_Inr [OF osh lab orange])
  let ?m2 = "backward (zero_grad m) inputs ?outputs labels"
  have m2w: "length (data (linear_weight ?m2)) = d"
    "case grad (linear_weight ?m2) of None \<Rightarrow> True | Some g \<Rightarrow> length g = d"
    using m by (simp_all add: backward_zero_grad model_shape_def linear_backward_lengths)
  have m2b: "length (data (linear_bias ?m2)) = 1"
    "case grad (linear_bias ?m2) of None \<Rightarrow> True | Some g \<Rightarrow> length g = 1"
    using m by (simp_all add: backward_zero_grad model_shape_def linear_backward_lengths)
  have gw: "\<exists>g. grad (linear_weight ?m2) = Some g" by (simp add: backward_zero_grad)
  from o have ow: "adam_state_shape d (weight_state opt)" and ob: "adam_state_shape 1 (bias_state opt)"
    by (simp_all add: optimizer_shape_def)
  obtain m3 opt' where st: "optimizer_step opt ?m2 = (m3, opt')" by (cases "optimizer_step opt ?m2")
  then have m3: "m3 = ?m2\<lparr>linear_weight := fst (adam_update opt (linear_weight ?m2) (weight_state opt)),
                           linear_bias := fst (adam_update opt (linear_bias ?m2) (bias_state opt))\<rparr>"
    and opt': "opt' = opt\<lparr>weight_state := snd (adam_update opt (linear_weight ?m2) (weight_state opt)),
                          bias_state := snd (adam_update opt (linear_bias ?m2) (bias_state opt))\<rparr>"
    by (auto simp: optimizer_step_def split_beta Let_def)
  have s1: "model_shape d m3"
    using adam_update_shape [OF m2w(1) ow m2w(2), of opt] adam_update_shape [OF m2b(1) ob m2b(2), of opt]
    by (simp add: m3 model_shape_def)
  have s2: "optimizer_shape d opt'"
    using adam_update_shape [OF m2w(1) ow m2w(2), of opt] adam_update_shape [OF m2b(1) ob m2b(2), of opt]
    by (simp add: opt' optimizer_shape_def)
  have s3: "training m3 = training m" by (simp add: m3 backward_zero_grad)
  from gw obtain g where "grad (linear_weight ?m2) = Some g" by blast
  from adam_update_step [OF this, of opt "weight_state opt"]
  have s4: "steps_taken opt' = steps_taken opt + 1" by (simp add: steps_taken_def opt')
  have "train_batch (m, opt, running_loss) batch = Inr (m3, opt', running_loss + ?loss)"
    by (simp add: train_batch_def batch fw loss st Let_def)
  with s1 s2 s3 s4 fw loss show ?thesis by (simp add: batch)
qed

section \<open>One pass over the loader\<close>

lemma train_batch_steps:
  assumes "train_batch (m, opt, running_loss) (inputs, labels) = Inr st'"
  shows "\<exists>outputs loss. forward m inputs = Inr outputs \<and> BCELoss outputs labels = Inr loss
           \<and> st' = (fst (optimizer_step opt (backward (zero_grad m) inputs outputs labels)),
                     snd (optimizer_step opt (backward (zero_grad m) inputs outputs labels)),
                     running_loss + loss)"
  using assms by (auto simp: train_batch_def Let_def split_beta split: sum.splits)

lemma train_batch_loss:
  assumes "train_batch (m, opt, running_loss) b = Inr (m', opt', l)"
  shows "\<exists>loss. batch_loss m b = Inr loss \<and> l = running_loss + loss
           \<and> train_batch (m, opt, r) b = Inr (m', opt', r + loss)"
  using assms
  by (cases b) (auto simp: train_batch_def batch_loss_def Let_def split_beta split: sum.splits)

lemma pass_losses_Cons:
  assumes "train_batch (m, opt, running_loss) b = Inr (m', opt', l)"
  shows "pass_losses (m, opt) (b # bs) = (l - running_loss) # pass_losses (m', opt') bs"
proof -
  from train_batch_loss [OF assms, of 0] obtain loss where
    "batch_loss m b = Inr loss" "l = running_loss + loss"
    "train_batch (m, opt, 0) b = Inr (m', opt', loss)" by auto
  then show ?thesis by simp
qed

lemma train_batches_Inr:
  assumes "model_shape d m" and "optimizer_shape d opt" and "list_all (batch_shape d) bs"
  shows "\<exists>m' opt'. train_batches (m, opt, running_loss) bs
                      = Inr (m', opt', running_loss + sum_list (pass_losses (m, opt) bs))
           \<and> length (pass_losses (m, opt) bs) = length bs
           \<and> model_shape d m' \<and> optimizer_shape d opt' \<and> training m' = training m
           \<and> steps_taken opt' = steps_taken opt + length bs"
  using assms
proof (induction bs arbitrary: m opt running_loss)
  case Nil
  then show ?case by simp
next
  case (Cons b bs)
  from Cons.prems have b: "batch_shape d b" and bs: "list_all (batch_shape d) bs" by simp_all
  from train_batch_Inr [OF Cons.prems(1,2) b, of running_loss] obtain m1 opt1 loss where
    s: "train_batch (m, opt, running_loss) b = Inr (m1, opt1, running_loss + loss)"
    and l: "case forward m (fst b) of Inl e \<Rightarrow> False | Inr outputs \<Rightarrow> BCELoss outputs (snd b) = Inr loss"
    and inv: "model_shape d m1" "optimizer_shape d opt1" "training m1 = training m"
      "steps_taken opt1 = steps_taken opt + 1" by blast
  have pl: "pass_losses (m, opt) (b # bs) = loss # pass_losses (m1, opt1) bs"
    using pass_losses_Cons [OF s, of bs] by simp
  from Cons.IH [OF inv(1,2) bs, of "running_loss + loss"] obtain m' opt' where
    r: "train_batches (m1, opt1, running_loss + loss) bs
          = Inr (m', opt', running_loss + loss + sum_list (pass_losses (m1, opt1) bs))"
    and r': "length (pass_losses (m1, opt1) bs) = length bs"
      "model_shape d m'" "optimizer_shape d opt'" "training m' = training m1"
      "steps_taken opt' = steps_taken opt1 + length bs" by blast
  show ?case unfolding pl using s r r' inv by (simp add: add.assoc)
qed

lemma dataset_samples:
  assumes "has_shape n d xs" and "has_shape n 1 ys" and "i < n"
  shows "zip xs ys ! i = (xs ! i, ys ! i) \<and> length (xs ! i) = d \<and> length (ys ! i) = 1"
  using assms by (simp add: has_shape_def list_all_length)

lemma collate_batch_shape:
  assumes "has_shape n d xs" and "has_shape n 1 ys" and "set b \<subseteq> {0..<n}"
  shows "batch_shape d (collate (map (\<lambda>i. zip xs ys ! i) b))"
proof -
  have "\<forall>i\<in>set b. length (fst (zip xs ys ! i)) = d \<and> length (snd (zip xs ys ! i)) = 1"
    using dataset_samples [OF assms(1,2)] assms(3) by auto
  then show ?thesis
    by (simp add: batch_shape_def collate_def has_shape_def list_all_iff)
qed

lemma zip_fst_snd_map: "zip (map (\<lambda>i. fst (f i)) b) (map (\<lambda>i. snd (f i)) b) = map f b"
  by (induction b) simp_all

lemma iterate_batches:
  assumes "notebook_ok nb"
  shows "list_all (batch_shape 2) (fst (iterate (dataloader nb) (gen nb)))
         \<and> map (\<lambda>b. length (fst b)) (fst (iterate (dataloader nb) (gen nb))) = [32, 32, 32, 4]
         \<and> mset (concat (map (\<lambda>b. zip (fst b) (snd b)) (fst (iterate (dataloader nb) (gen nb)))))
             = mset (zip (X nb) (y nb))"
proof -
  let ?dl = "dataloader nb"
  let ?idx = "fst (sampler ?dl (gen nb))"
  from assms have x: "has_shape 100 2 (X nb)" and y: "has_shape 100 1 (y nb)"
    and ds: "dataset ?dl = zip (X nb) (y nb)" and bsz: "batch_size ?dl = 32"
    by (simp_all add: notebook_ok_def)
  have n: "length (dataset ?dl) = 100" using x y by (simp add: ds has_shape_def)
  have it: "fst (iterate ?dl (gen nb))
              = map (\<lambda>b. collate (map (\<lambda>i. zip (X nb) (y nb) ! i) b)) (batch_sampler 32 ?idx)"
    by (simp add: iterate_def split_beta ds bsz)
  have len: "length ?idx = 100" using sampler_length [of ?dl "gen nb"] n by simp
  have set: "set ?idx = {0..<100}" using sampler_set [of ?dl "gen nb"] n by simp
  have "\<forall>b\<in>set (batch_sampler 32 ?idx). batch_shape 2 (collate (map (\<lambda>i. zip (X nb) (y nb) ! i) b))"
    using batch_sampler_subset [of _ 32 ?idx] set collate_batch_shape [OF x y] by blast
  then have p1: "list_all (batch_shape 2) (fst (iterate ?dl (gen nb)))"
    by (simp add: it list_all_iff)
  have p2: "map (\<lambda>b. length (fst b)) (fst (iterate ?dl (gen nb))) = [32, 32, 32, 4]"
    using batch_sampler_100_lengths [OF len] by (simp add: it collate_def comp_def)
  have "concat (map (\<lambda>b. zip (fst b) (snd b)) (fst (iterate ?dl (gen nb))))
          = concat (map (map (\<lambda>i. zip (X nb) (y nb) ! i)) (batch_sampler 32 ?idx))"
    by (simp add: it collate_def comp_def zip_fst_snd_map)
  also have "\<dots> = map (\<lambda>i. zip (X nb) (y nb) ! i) (concat (batch_sampler 32 ?idx))"
    by (simp add: map_concat)
  also have "\<dots> = map (\<lambda>i. zip (X nb) (y nb) ! i) ?idx"
    by (simp add: concat_batch_sampler)
  finally have "mset (concat (map (\<lambda>b. zip (fst b) (snd b)) (fst (iterate ?dl (gen nb)))))
          = image_mset (\<lambda>i. zip (X nb) (y nb) ! i) (mset ?idx)" by simp
  also have "mset ?idx = mset [0..<length (zip (X nb) (y nb))]"
    using sampler_mset [of ?dl "gen nb"] by (simp add: ds)
  also have "image_mset (\<lambda>i. zip (X nb) (y nb) ! i) \<dots> = mset (zip (X nb) (y nb))"
    by (simp only: mset_map [symmetric] map_nth)
  finally have p3: "mset (concat (map (\<lambda>b. zip (fst b) (snd b)) (fst (iterate ?dl (gen nb)))))
             = mset (zip (X nb) (y nb))" .
  from p1 p2 p3 show ?thesis by blast
qed

section \<open>One epoch\<close>

lemma len_dataloader_100: "notebook_ok nb \<Longrightarrow> len_dataloader (dataloader nb) = 4"
  by (simp add: notebook_ok_def len_dataloader_def has_shape_def)

lemma train_epoch_Inr:
  assumes "notebook_ok nb"
  shows "\<exists>nb'. train_epoch epochs nb epoch = Inr nb' \<and> notebook_ok nb'
           \<and> X nb' = X nb \<and> y nb' = y nb \<and> dataloader nb' = dataloader nb
           \<and> training (model nb')
           \<and> steps_taken (optimizer nb') = steps_taken (optimizer nb) + 4
           \<and> gen nb' = snd (iterate (dataloader nb) (gen nb))
           \<and> length (pass_losses ((model nb)\<lparr>training := True\<rparr>, optimizer nb)
                        (fst (iterate (dataloader nb) (gen nb)))) = 4
           \<and> stdout nb' = stdout nb @
               (if (epoch + 1) mod 10 = 0
                then [LossLine (epoch + 1) epochs
                        (sum_list (pass_losses ((model nb)\<lparr>training := True\<rparr>, optimizer nb)
                                     (fst (iterate (dataloader nb) (gen nb)))) / 4)]
                else [])"
proof -
  let ?m = "(model nb)\<lparr>training := True\<rparr>"
  obtain batches g' where it: "iterate (dataloader nb) (gen nb) = (batches, g')"
    by (cases "iterate (dataloader nb) (gen nb)")
  from iterate_batches [OF assms] have bs: "list_all (batch_shape 2) batches"
    and lens: "map (\<lambda>b. length (fst b)) batches = [32, 32, 32, 4]" by (simp_all add: it)
  have "length (map (\<lambda>b. length (fst b)) batches) = length [32, 32, 32, 4 :: nat]"
    by (simp only: lens)
  then have n: "length batches = 4" by simp
  from assms have m: "model_shape 2 ?m" and o: "optimizer_shape 2 (optimizer nb)"
    by (simp_all add: notebook_ok_def model_shape_def)
  from train_batches_Inr [OF m o bs, of 0] obtain m' opt' where
    tb: "train_batches (?m, optimizer nb, 0) batches
           = Inr (m', opt', sum_list (pass_losses (?m, optimizer nb) batches))"
    and pl: "length (pass_losses (?m, optimizer nb) batches) = length batches"
    and inv: "model_shape 2 m'" "optimizer_shape 2 opt'" "training m' = training ?m"
      "steps_taken opt' = steps_taken (optimizer nb) + length batches" by auto
  let ?nb' = "nb\<lparr>model := m', optimizer := opt', gen := g'\<rparr>"
  have ok: "notebook_ok (?nb'\<lparr>stdout := l\<rparr>)" for l
    using assms inv by (simp add: notebook_ok_def)
  have ok': "notebook_ok ?nb'"
    using assms inv by (simp add: notebook_ok_def)
  show ?thesis
  proof (cases "(epoch + 1) mod 10 = 0")
    case True
    then have "train_epoch epochs nb epoch = Inr (?nb'\<lparr>stdout := stdout nb @
        [LossLine (epoch + 1) epochs (sum_list (pass_losses (?m, optimizer nb) batches) / 4)]\<rparr>)"
      using len_dataloader_100 [OF assms] by (simp add: train_epoch_def it tb Let_def)
    with True ok inv pl n show ?thesis by (simp add: it)
  next
    case False
    then have "train_epoch epochs nb epoch = Inr ?nb'"
      by (simp add: train_epoch_def it tb Let_def)
    with False ok' inv pl n show ?thesis by (simp add: it)
  qed
qed

section \<open>The training loop\<close>

lemma train_loop_Inr:
  assumes "notebook_ok nb"
  shows "\<exists>nb' ls. train_loop epochs nb es = Inr nb' \<and> notebook_ok nb'
           \<and> X nb' = X nb \<and> y nb' = y nb \<and> dataloader nb' = dataloader nb
           \<and> (es = [] \<or> training (model nb'))
           \<and> steps_taken (optimizer nb') = steps_taken (optimizer nb) + 4 * length es
           \<and> stdout nb' = stdout nb @ ls
           \<and> map line_epoch ls
               = map (\<lambda>e. Some (e + 1, epochs)) (filter (\<lambda>e. (e + 1) mod 10 = 0) es)"
  using assms
proof (induction es arbitrary: nb)
  case Nil
  then show ?case by simp
next
  case (Cons e es)
  from train_epoch_Inr [OF Cons.prems, of epochs e] obtain nb1 where
    s: "train_epoch epochs nb e = Inr nb1" and ok: "notebook_ok nb1"
    and fr: "X nb1 = X nb" "y nb1 = y nb" "dataloader nb1 = dataloader nb"
    and st: "steps_taken (optimizer nb1) = steps_taken (optimizer nb) + 4"
    and out: "stdout nb1 = stdout nb @
               (if (e + 1) mod 10 = 0
                then [LossLine (e + 1) epochs
                        (sum_list (pass_losses ((model nb)\<lparr>training := True\<rparr>, optimizer nb)
                                     (fst (iterate (dataloader nb) (gen nb)))) / 4)]
                else [])" by blast
  from Cons.IH [OF ok] obtain nb' ls where
    r: "train_loop epochs nb1 es = Inr nb'" "notebook_ok nb'"
      "X nb' = X nb1" "y nb' = y nb1" "dataloader nb' = dataloader nb1"
      "es = [] \<or> training (model nb')"
      "steps_taken (optimizer nb') = steps_taken (optimizer nb1) + 4 * length es"
      "stdout nb' = stdout nb1 @ ls"
      "map line_epoch ls = map (\<lambda>e. Some (e + 1, epochs)) (filter (\<lambda>e. (e + 1) mod 10 = 0) es)"
    by blast
  from train_epoch_Inr [OF Cons.prems, of epochs e] s have tr1: "training (model nb1)" by auto
  have tr: "training (model nb')"
  proof (cases es)
    case Nil
    with r(1) tr1 show ?thesis by simp
  next
    case (Cons a list)
    with r(6) show ?thesis by simp
  qed
  let ?l = "(if (e + 1) mod 10 = 0
                then [LossLine (e + 1) epochs
                        (sum_list (pass_losses ((model nb)\<lparr>training := True\<rparr>, optimizer nb)
                                     (fst (iterate (dataloader nb) (gen nb)))) / 4)]
                else []) @ ls"
  have a: "stdout nb' = stdout nb @ ?l" using r(8) out by simp
  have b: "map line_epoch ?l
      = map (\<lambda>e. Some (e + 1, epochs)) (filter (\<lambda>e. (e + 1) mod 10 = 0) (e # es))"
    using r(9) by simp
  have c: "train_loop epochs nb (e # es) = Inr nb'" using s r(1) by simp
  have d: "steps_taken (optimizer nb') = steps_taken (optimizer nb) + 4 * length (e # es)"
    using r(7) st by simp
  from a b c d r(2-5) fr tr show ?case by (intro exI [of _ nb'] exI [of _ ?l]) simp
qed

lemma printing_epochs:
  "filter (\<lambda>e. (e + 1) mod 10 = 0) [0..<100] = [9, 19, 29, 39, 49, 59, 69, 79, 89, 99]"
  by code_simp

lemma train_Inr:
  assumes "notebook_ok nb"
  shows "\<exists>nb' ls. train nb = Inr nb' \<and> notebook_ok nb'
           \<and> X nb' = X nb \<and> y nb' = y nb \<and> dataloader nb' = dataloader nb
           \<and> training (model nb')
           \<and> steps_taken (optimizer nb') = steps_taken (optimizer nb) + 400
           \<and> stdout nb' = stdout nb @ ls
           \<and> map line_epoch ls = map (\<lambda>k. Some (10 * k, 100)) [1..<11]"
proof -
  have e: "map (\<lambda>k. Some (10 * k, 100 :: nat)) [1..<11]
             = map (\<lambda>e. Some (e + 1, 100)) [9, 19, 29, 39, 49, 59, 69, 79, 89, 99 :: nat]"
    by code_simp
  have ne: "[0..<100] \<noteq> []" by simp
  from train_loop_Inr [OF assms, of 100 "[0..<100]"] ne show ?thesis
    unfolding train_def printing_epochs e by auto
qed

section \<open>Evaluation\<close>

lemma those_map_Some:
  "(\<And>x. x \<in> set l \<Longrightarrow> f x = Some (g x)) \<Longrightarrow> those (map f l) = Some (map g l)"
  by (induction l) simp_all

lemma broadcast_same_length: "length xs = length ys \<Longrightarrow> broadcast xs ys = Some (zip xs ys)"
  by (simp add: broadcast_def expand_def)

lemma tensor_eq_column:
  assumes "has_shape n 1 a" and "has_shape n 1 b"
  shows "tensor_eq a b = Inr (map2 (\<lambda>r s. [if r = s then 1 else 0]) a b)"
proof -
  from assms have len: "length a = length b" by (simp add: has_shape_def)
  have single: "\<exists>u v. r = [u] \<and> s = [v]" if "(r, s) \<in> set (zip a b)" for r s
  proof -
    from that have "r \<in> set a" "s \<in> set b" by (auto dest: set_zip_leftD set_zip_rightD)
    with assms have "length r = 1" "length s = 1" by (auto simp: has_shape_def list_all_iff)
    then show ?thesis by (cases r; cases s) auto
  qed
  have rows: "(case p of (r, s) \<Rightarrow> broadcast r s) = Some (case p of (r, s) \<Rightarrow> zip r s)"
    if "p \<in> set (zip a b)" for p
    using single [of "fst p" "snd p"] that by (auto simp: broadcast_same_length split: prod.splits)
  have cells: "map (\<lambda>(u, v). if u = v then 1 else (0 :: real)) (case p of (r, s) \<Rightarrow> zip r s)
                 = (case p of (r, s) \<Rightarrow> [if r = s then 1 else 0])"
    if "p \<in> set (zip a b)" for p
    using single [of "fst p" "snd p"] that by (auto split: prod.splits)
  have "those (map (\<lambda>(r, s). broadcast r s) (zip a b)) = Some (map (\<lambda>(r, s). zip r s) (zip a b))"
    by (rule those_map_Some) (rule rows)
  moreover have "map (map (\<lambda>(u, v). if u = v then 1 else (0 :: real))) (map (\<lambda>(r, s). zip r s) (zip a b))
                   = map2 (\<lambda>r s. [if r = s then 1 else 0]) a b"
    unfolding map_map comp_def by (rule map_cong [OF refl]) (rule cells)
  ultimately show ?thesis by (simp add: tensor_eq_def broadcast_same_length [OF len])
qed

lemma concat_singletons: "concat (map (\<lambda>p. [h p]) l) = map h l"
  by (induction l) simp_all

lemma sum_indicator:
  "sum_list (map (\<lambda>p. if P p then 1 else 0) l) = real (length (filter P l))"
  by (induction l) simp_all

lemma mean_matches:
  "mean (concat (map2 (\<lambda>r s. [if r = s then 1 else 0]) a b))
     = real (length (filter (\<lambda>(p, t). p = t) (zip a b))) / real (length (zip a b))"
proof -
  have "concat (map2 (\<lambda>r s. [if r = s then 1 else (0 :: real)]) a b)
          = map (\<lambda>p. if (case p of (p, t) \<Rightarrow> p = t) then 1 else 0) (zip a b)"
    using concat_singletons [of "\<lambda>p. if (case p of (p, t) \<Rightarrow> p = t) then 1 else (0 :: real)" "zip a b"]
    by (simp add: case_prod_unfold)
  then show ?thesis by (simp add: mean_def sum_indicator)
qed

lemma format_4f_hundredths: "format_4f (real k / 100) = real k / 100"
proof -
  have "real k / 100 * 10000 = of_int (int (100 * k))" by simp
  then have "\<lfloor>real k / 100 * 10000\<rfloor> = int (100 * k)"
    by (metis floor_of_int)
  then show ?thesis by (simp add: format_4f_def Let_def)
qed

lemma forward_training: "forward (m\<lparr>training := t\<rparr>) x = forward m x"
  by (simp add: forward_def linear_apply_def)

lemma evaluate_Inr:
  assumes "notebook_ok nb"
  shows "\<exists>outputs. forward (model nb) (X nb) = Inr outputs
           \<and> outputs = map (\<lambda>r. [sigmoid (dot r (data (linear_weight (model nb)))
                                        + hd (data (linear_bias (model nb))))]) (X nb)
           \<and> evaluate nb = Inr (nb\<lparr>model := (model nb)\<lparr>training := False\<rparr>,
                 stdout := stdout nb @ [AccuracyLine
                   (real (length (filter (\<lambda>(p, t). p = t) (zip (threshold outputs) (y nb)))) / 100)]\<rparr>)"
proof -
  from assms have x: "has_shape 100 2 (X nb)" and y: "has_shape 100 1 (y nb)"
    and m: "model_shape 2 (model nb)" by (simp_all add: notebook_ok_def)
  let ?out = "map (\<lambda>r. [sigmoid (dot r (data (linear_weight (model nb)))
                                        + hd (data (linear_bias (model nb))))]) (X nb)"
  have fw: "forward (model nb) (X nb) = Inr ?out"
    using x m by (intro forward_Inr) (simp_all add: has_shape_def model_shape_def)
  have lx: "length (X nb) = 100" and ly: "length (y nb) = 100"
    using x y by (simp_all add: has_shape_def)
  have p: "has_shape 100 1 (threshold ?out)"
    by (simp add: threshold_def has_shape_def lx list_all_iff)
  note eq = tensor_eq_column [OF p y]
  have lz: "length (zip (threshold ?out) (y nb)) = 100"
    using p ly by (simp add: has_shape_def)
  have acc: "format_4f (mean (concat (map2 (\<lambda>r s. [if r = s then 1 else 0]) (threshold ?out) (y nb))))
          = real (length (filter (\<lambda>(p, t). p = t) (zip (threshold ?out) (y nb)))) / 100"
    unfolding mean_matches lz using format_4f_hundredths by simp
  have "evaluate nb = Inr (nb\<lparr>model := (model nb)\<lparr>training := False\<rparr>,
                 stdout := stdout nb @ [AccuracyLine
                   (real (length (filter (\<lambda>(p, t). p = t) (zip (threshold ?out) (y nb)))) / 100)]\<rparr>)"
    unfolding evaluate_def forward_training fw Let_def sum.case eq acc by simp
  with fw show ?thesis by simp
qed

section \<open>The notebook from top to bottom\<close>

lemma init_cells_ok: "\<exists>nb. init_cells g = Inr nb \<and> notebook_ok nb \<and> stdout nb = []"
proof -
  from init_cells_Inr [of g] obtain nb where nb: "init_cells g = Inr nb"
    "X nb = fst (randn 100 2 g)"
    "y nb = map (\<lambda>r. [if 0 < r ! 0 + r ! 1 then 1 else 0]) (X nb)"
    "dataloader nb = \<lparr>dataset = zip (X nb) (y nb), batch_size = 32, shuffle = True\<rparr>"
    "model nb = fst (LinearClassifier_init 2 (snd (randn 100 2 g)))"
    "optimizer nb = Adam_init (1 / 100)" "stdout nb = []" by blast
  have sx: "has_shape 100 2 (X nb)" by (simp add: nb(2) randn_shape)
  then have sy: "has_shape 100 1 (y nb)" by (simp add: nb(3) has_shape_def list_all_iff)
  have m: "model_shape 2 (model nb)"
    by (simp add: nb(5) LinearClassifier_init_def uniform_init_def model_shape_def split_beta Let_def)
  have opt: "optimizer_shape 2 (optimizer nb)"
    by (simp add: nb(6) Adam_init_def optimizer_shape_def adam_state_shape_def)
  from sx sy nb(4) m opt have "notebook_ok nb" by (simp add: notebook_ok_def)
  with nb(1,7) show ?thesis by blast
qed

lemma example_notebook_ok: "notebook_ok example_notebook"
  by (simp add: notebook_ok_def example_notebook_def example_X_def example_y_def has_shape_def
      list_all_iff model_shape_def example_model_def optimizer_shape_def Adam_init_def
      adam_state_shape_def)

lemma run_stages:
  "\<exists>nb0 nb1 nb2. init_cells g = Inr nb0 \<and> train nb0 = Inr nb1 \<and> evaluate nb1 = Inr nb2
      \<and> run g = Inr nb2 \<and> notebook_ok nb0 \<and> notebook_ok nb1 \<and> notebook_ok nb2
      \<and> map line_epoch (stdout nb1) = map (\<lambda>k. Some (10 * k, 100)) [1..<11]
      \<and> (\<exists>a. stdout nb2 = stdout nb1 @ [AccuracyLine a])"
proof -
  from init_cells_ok [of g] obtain nb0 where
    s0: "init_cells g = Inr nb0" "notebook_ok nb0" "stdout nb0 = []" by blast
  from train_Inr [OF s0(2)] obtain nb1 ls where
    s1: "train nb0 = Inr nb1" "notebook_ok nb1" "stdout nb1 = stdout nb0 @ ls"
      "map line_epoch ls = map (\<lambda>k. Some (10 * k, 100)) [1..<11]" by blast
  from evaluate_Inr [OF s1(2)] obtain nb2 a where
    s2: "evaluate nb1 = Inr nb2" "nb2 = nb1\<lparr>model := (model nb1)\<lparr>training := False\<rparr>,
      stdout := stdout nb1 @ [AccuracyLine a]\<rparr>" by blast
  have ok2: "notebook_ok nb2" using s1(2) by (simp add: s2(2) notebook_ok_def model_shape_def)
  have r: "run g = Inr nb2" by (simp add: run_def s0(1) s1(1) s2(1))
  have o1: "map line_epoch (stdout nb1) = map (\<lambda>k. Some (10 * k, 100)) [1..<11]"
    using s1(3,4) s0(3) by simp
  have o2: "stdout nb2 = stdout nb1 @ [AccuracyLine a]" by (simp add: s2(2))
  from s0(1,2) s1(1,2) s2(1) ok2 r o1 o2 show ?thesis by blast
qed

section \<open>The claims about evaluation, shapes and output\<close>

text \<open>
  C3: in a notebook state with the script's shapes, the evaluation cell succeeds; the
  output of sample \<open>i\<close> is the sigmoid of the linear layer on \<open>X[i]\<close>; its predicted label
  is \<open>1\<close> exactly when that output exceeds \<open>1/2\<close> and \<open>0\<close> otherwise; and the accuracy line
  shows the number of samples whose predicted label equals the true label, divided by 100.
\<close>

theorem evaluation_accuracy:
  assumes "notebook_ok nb"
  shows "\<exists>nb' outputs. evaluate nb = Inr nb' \<and> forward (model nb) (X nb) = Inr outputs
           \<and> (\<forall>i<100. outputs ! i = [sigmoid (dot (X nb ! i) (data (linear_weight (model nb)))
                                          + hd (data (linear_bias (model nb))))]
                  \<and> threshold outputs ! i = [if 1 / 2 < outputs ! i ! 0 then 1 else 0])
           \<and> stdout nb' = stdout nb @ [AccuracyLine
                (real (length (filter (\<lambda>(p, t). p = t) (zip (threshold outputs) (y nb)))) / 100)]"
proof -
  from evaluate_Inr [OF assms] obtain outputs where
    fw: "forward (model nb) (X nb) = Inr outputs"
    and out: "outputs = map (\<lambda>r. [sigmoid (dot r (data (linear_weight (model nb)))
                                        + hd (data (linear_bias (model nb))))]) (X nb)"
    and ev: "evaluate nb = Inr (nb\<lparr>model := (model nb)\<lparr>training := False\<rparr>,
                 stdout := stdout nb @ [AccuracyLine
                   (real (length (filter (\<lambda>(p, t). p = t) (zip (threshold outputs) (y nb)))) / 100)]\<rparr>)"
    by blast
  from assms have lx: "length (X nb) = 100" by (simp add: notebook_ok_def has_shape_def)
  have "\<forall>i<100. outputs ! i = [sigmoid (dot (X nb ! i) (data (linear_weight (model nb)))
                                          + hd (data (linear_bias (model nb))))]
                  \<and> threshold outputs ! i = [if 1 / 2 < outputs ! i ! 0 then 1 else 0]"
    by (simp add: out lx threshold_def)
  with fw ev show ?thesis by auto
qed

theorem evaluation_accuracy_witness:
  "notebook_ok example_notebook
   \<and> (\<exists>nb' outputs. evaluate example_notebook = Inr nb'
         \<and> forward (model example_notebook) (X example_notebook) = Inr outputs
         \<and> (7 :: nat) < 100
         \<and> outputs ! 7 = [sigmoid (- 42)]
         \<and> threshold outputs ! 7 = [if 1 / 2 < outputs ! 7 ! 0 then 1 else 0]
         \<and> stdout nb' = stdout example_notebook @ [AccuracyLine
              (real (length (filter (\<lambda>(p, t). p = t)
                 (zip (threshold outputs) (y example_notebook)))) / 100)])"
proof -
  from evaluation_accuracy [OF example_notebook_ok] obtain nb' outputs where
    a: "evaluate example_notebook = Inr nb'"
      "forward (model example_notebook) (X example_notebook) = Inr outputs"
    and b: "\<forall>i<100. outputs ! i = [sigmoid (dot (X example_notebook ! i)
                   (data (linear_weight (model example_notebook)))
                 + hd (data (linear_bias (model example_notebook))))]
             \<and> threshold outputs ! i = [if 1 / 2 < outputs ! i ! 0 then 1 else 0]"
    and c: "stdout nb' = stdout example_notebook @ [AccuracyLine
              (real (length (filter (\<lambda>(p, t). p = t)
                 (zip (threshold outputs) (y example_notebook)))) / 100)]" by blast
  have "dot (X example_notebook ! 7) (data (linear_weight (model example_notebook)))
          + hd (data (linear_bias (model example_notebook))) = - 42"
    by (simp add: example_notebook_def example_X_def example_model_def dot_def)
  with b have "outputs ! 7 = [sigmoid (- 42)]"
    "threshold outputs ! 7 = [if 1 / 2 < outputs ! 7 ! 0 then 1 else 0]" by simp_all
  with a c example_notebook_ok show ?thesis by auto
qed

text \<open>
  C5: the model's parameters are a weight of length 2 and one bias. They have these
  shapes when the model is created, after the whole training loop and after evaluation,
  for every generator; and each training step and each epoch, started with these shapes,
  succeeds and leaves them.
\<close>

theorem parameter_shapes_preserved:
  "(\<exists>nb0 nb1 nb2. init_cells g = Inr nb0 \<and> train nb0 = Inr nb1 \<and> evaluate nb1 = Inr nb2
       \<and> run g = Inr nb2
       \<and> parameter_shapes (model nb0) = [2, 1] \<and> parameter_shapes (model nb1) = [2, 1]
       \<and> parameter_shapes (model nb2) = [2, 1])
   \<and> (parameter_shapes m = [2, 1] \<and> optimizer_shape 2 opt \<and> batch_shape 2 batch \<longrightarrow>
        (\<exists>m' opt' l. train_batch (m, opt, running_loss) batch = Inr (m', opt', l)
            \<and> parameter_shapes m' = [2, 1] \<and> optimizer_shape 2 opt'))
   \<and> (notebook_ok nb \<longrightarrow>
        (\<exists>nb'. train_epoch epochs nb epoch = Inr nb' \<and> parameter_shapes (model nb') = [2, 1]))"
proof -
  have ps: "parameter_shapes m = [2, 1] \<longleftrightarrow> model_shape 2 m" for m
    by (auto simp: parameter_shapes_def parameters_def model_shape_def)
  have ok: "notebook_ok nb \<Longrightarrow> parameter_shapes (model nb) = [2, 1]" for nb
    by (simp only: ps notebook_ok_def)
  have a: "\<exists>nb0 nb1 nb2. init_cells g = Inr nb0 \<and> train nb0 = Inr nb1 \<and> evaluate nb1 = Inr nb2
       \<and> run g = Inr nb2
       \<and> parameter_shapes (model nb0) = [2, 1] \<and> parameter_shapes (model nb1) = [2, 1]
       \<and> parameter_shapes (model nb2) = [2, 1]"
    using run_stages [of g] ok by blast
  have b: "parameter_shapes m = [2, 1] \<and> optimizer_shape 2 opt \<and> batch_shape 2 batch \<longrightarrow>
        (\<exists>m' opt' l. train_batch (m, opt, running_loss) batch = Inr (m', opt', l)
            \<and> parameter_shapes m' = [2, 1] \<and> optimizer_shape 2 opt')"
  proof
    assume h: "parameter_shapes m = [2, 1] \<and> optimizer_shape 2 opt \<and> batch_shape 2 batch"
    with ps have "model_shape 2 m" by blast
    from train_batch_Inr [OF this, of opt batch running_loss] h
    show "\<exists>m' opt' l. train_batch (m, opt, running_loss) batch = Inr (m', opt', l)
            \<and> parameter_shapes m' = [2, 1] \<and> optimizer_shape 2 opt'"
      unfolding ps by blast
  qed
  have c: "notebook_ok nb \<longrightarrow>
        (\<exists>nb'. train_epoch epochs nb epoch = Inr nb' \<and> parameter_shapes (model nb') = [2, 1])"
    using train_epoch_Inr [of nb epochs epoch] ok by blast
  from a b c show ?thesis by blast
qed

theorem parameter_shapes_preserved_witness:
  "(\<exists>nb0 nb1 nb2. init_cells example_generator = Inr nb0 \<and> train nb0 = Inr nb1
       \<and> evaluate nb1 = Inr nb2 \<and> run example_generator = Inr nb2
       \<and> parameter_shapes (model nb0) = [2, 1] \<and> parameter_shapes (model nb1) = [2, 1]
       \<and> parameter_shapes (model nb2) = [2, 1])
   \<and> parameter_shapes example_model = [2, 1] \<and> optimizer_shape 2 (Adam_init (1 / 100))
   \<and> batch_shape 2 ([[1, 2], [3, 4]], [[1], [0]])
   \<and> (\<exists>m' opt' l. train_batch (example_model, Adam_init (1 / 100), 0) ([[1, 2], [3, 4]], [[1], [0]])
                     = Inr (m', opt', l)
         \<and> parameter_shapes m' = [2, 1] \<and> optimizer_shape 2 opt')
   \<and> notebook_ok example_notebook
   \<and> (\<exists>nb'. train_epoch 100 example_notebook 0 = Inr nb' \<and> parameter_shapes (model nb') = [2, 1])"
proof -
  have h: "parameter_shapes example_model = [2, 1]" "optimizer_shape 2 (Adam_init (1 / 100))"
    "batch_shape 2 ([[1, 2], [3, 4]], [[1], [0]])"
    by (simp_all add: parameter_shapes_def parameters_def example_model_def optimizer_shape_def
        Adam_init_def adam_state_shape_def batch_shape_def has_shape_def)
  from parameter_shapes_preserved [of example_generator example_model "Adam_init (1 / 100)"
      "([[1, 2], [3, 4]], [[1], [0]])" 0 example_notebook 100 0] h example_notebook_ok
  show ?thesis by blast
qed

text \<open>
  C6: for every generator the notebook runs to its end, and what it has printed is ten
  loss lines, for the epochs 10, 20, \<dots>, 100 of 100, followed by one accuracy line. In
  the training loop an epoch appends one loss line when \<open>epoch + 1\<close> is a multiple of 10 and
  nothing otherwise.
\<close>

theorem printed_lines:
  "(\<exists>nb. run g = Inr nb
      \<and> map line_epoch (stdout nb)
          = [Some (10, 100), Some (20, 100), Some (30, 100), Some (40, 100), Some (50, 100),
             Some (60, 100), Some (70, 100), Some (80, 100), Some (90, 100), Some (100, 100),
             None])
   \<and> (notebook_ok nb0 \<longrightarrow>
        (\<exists>nb' ls. train_epoch epochs nb0 epoch = Inr nb' \<and> stdout nb' = stdout nb0 @ ls
           \<and> map line_epoch ls = (if (epoch + 1) mod 10 = 0 then [Some (epoch + 1, epochs)] else [])))"
proof -
  have e: "map (\<lambda>k. Some (10 * k, 100 :: nat)) [1..<11]
     = [Some (10, 100), Some (20, 100), Some (30, 100), Some (40, 100), Some (50, 100),
        Some (60, 100), Some (70, 100), Some (80, 100), Some (90, 100), Some (100, 100)]"
    by code_simp
  from run_stages [of g] obtain nb1 nb2 :: notebook where
    r0: "run g = Inr nb2" "map line_epoch (stdout nb1) = map (\<lambda>k. Some (10 * k, 100)) [1..<11]"
      "\<exists>a. stdout nb2 = stdout nb1 @ [AccuracyLine a]" by blast
  then obtain a where
    r: "run g = Inr nb2" "map line_epoch (stdout nb1) = map (\<lambda>k. Some (10 * k, 100)) [1..<11]"
      "stdout nb2 = stdout nb1 @ [AccuracyLine a]" by blast
  from r(1) r(2) [unfolded e] r(3) have a: "\<exists>nb. run g = Inr nb
      \<and> map line_epoch (stdout nb)
          = [Some (10, 100), Some (20, 100), Some (30, 100), Some (40, 100), Some (50, 100),
             Some (60, 100), Some (70, 100), Some (80, 100), Some (90, 100), Some (100, 100),
             None]"
    by simp
  have b: "notebook_ok nb0 \<longrightarrow>
        (\<exists>nb' ls. train_epoch epochs nb0 epoch = Inr nb' \<and> stdout nb' = stdout nb0 @ ls
           \<and> map line_epoch ls = (if (epoch + 1) mod 10 = 0 then [Some (epoch + 1, epochs)] else []))"
  proof
    assume "notebook_ok nb0"
    from train_epoch_Inr [OF this, of epochs epoch] obtain nb' where
      s: "train_epoch epochs nb0 epoch = Inr nb'"
      "stdout nb' = stdout nb0 @
               (if (epoch + 1) mod 10 = 0
                then [LossLine (epoch + 1) epochs
                        (sum_list (pass_losses ((model nb0)\<lparr>training := True\<rparr>, optimizer nb0)
                                     (fst (iterate (dataloader nb0) (gen nb0)))) / 4)]
                else [])" by blast
    show "\<exists>nb' ls. train_epoch epochs nb0 epoch = Inr nb' \<and> stdout nb' = stdout nb0 @ ls
           \<and> map line_epoch ls = (if (epoch + 1) mod 10 = 0 then [Some (epoch + 1, epochs)] else [])"
      by (rule exI [of _ nb'], rule exI [of _ "(if (epoch + 1) mod 10 = 0
                then [LossLine (epoch + 1) epochs
                        (sum_list (pass_losses ((model nb0)\<lparr>training := True\<rparr>, optimizer nb0)
                                     (fst (iterate (dataloader nb0) (gen nb0)))) / 4)]
                else [])"]) (simp add: s)
  qed
  from a b show ?thesis by blast
qed

theorem printed_lines_witness:
  "(\<exists>nb. run example_generator = Inr nb
      \<and> map line_epoch (stdout nb)
          = [Some (10, 100), Some (20, 100), Some (30, 100), Some (40, 100), Some (50, 100),
             Some (60, 100), Some (70, 100), Some (80, 100), Some (90, 100), Some (100, 100),
             None])
   \<and> notebook_ok example_notebook
   \<and> (\<exists>nb' ls. train_epoch 100 example_notebook 9 = Inr nb' \<and> stdout nb' = ls
         \<and> map line_epoch ls = [Some (10, 100)])
   \<and> (\<exists>nb'. train_epoch 100 example_notebook 10 = Inr nb' \<and> stdout nb' = [])"
proof -
  have s: "stdout example_notebook = []" by (simp add: example_notebook_def)
  from printed_lines [of example_generator example_notebook 100 9]
    printed_lines [of example_generator example_notebook 100 10] example_notebook_ok
  show ?thesis unfolding s by auto
qed

section \<open>What evaluation changes\<close>




section \<open>Errors\<close>

text \<open>
  C8: no function of the script handles an error. An error of the forward pass or of the
  loss is the result of the training step; an error of a training step is the result of
  the pass over the loader, of the epoch and of the training loop, whatever came before;
  an error of the forward pass or of the comparison in the evaluation cell is the result
  of evaluation.
\<close>

theorem errors_propagate:
  "(forward m (fst batch) = Inl e \<longrightarrow> train_batch (m, opt, running_loss) batch = Inl e)
   \<and> (forward m (fst batch) = Inr outputs \<and> BCELoss outputs (snd batch) = Inl e \<longrightarrow>
        train_batch (m, opt, running_loss) batch = Inl e)
   \<and> (train_batches st bs = Inr st' \<and> train_batch st' b = Inl e \<longrightarrow>
        train_batches st (bs @ b # bs') = Inl e)
   \<and> (train_batches ((model nb)\<lparr>training := True\<rparr>, optimizer nb, 0)
          (fst (iterate (dataloader nb) (gen nb))) = Inl e \<longrightarrow>
        train_epoch epochs nb epoch = Inl e)
   \<and> (train_loop epochs nb es = Inr nb' \<and> train_epoch epochs nb' epoch = Inl e \<longrightarrow>
        train_loop epochs nb (es @ epoch # es') = Inl e)
   \<and> (forward (model nb) (X nb) = Inl e \<longrightarrow> evaluate nb = Inl e)
   \<and> (forward (model nb) (X nb) = Inr outputs \<and> tensor_eq (threshold outputs) (y nb) = Inl e \<longrightarrow>
        evaluate nb = Inl e)"
proof -
  have a: "forward m (fst batch) = Inl e \<longrightarrow> train_batch (m, opt, running_loss) batch = Inl e"
    by (simp add: train_batch_def split_beta)
  have b: "forward m (fst batch) = Inr outputs \<and> BCELoss outputs (snd batch) = Inl e \<longrightarrow>
        train_batch (m, opt, running_loss) batch = Inl e"
    by (simp add: train_batch_def split_beta)
  have c: "train_batches st bs = Inr st' \<and> train_batch st' b = Inl e \<longrightarrow>
        train_batches st (bs @ b # bs') = Inl e"
    by (induction bs arbitrary: st) (auto split: sum.splits)
  have d: "train_batches ((model nb)\<lparr>training := True\<rparr>, optimizer nb, 0)
          (fst (iterate (dataloader nb) (gen nb))) = Inl e \<longrightarrow>
        train_epoch epochs nb epoch = Inl e"
    by (simp add: train_epoch_def split_beta)
  have f: "train_loop epochs nb es = Inr nb' \<and> train_epoch epochs nb' epoch = Inl e \<longrightarrow>
        train_loop epochs nb (es @ epoch # es') = Inl e"
    by (induction es arbitrary: nb) (auto split: sum.splits)
  have g: "forward (model nb) (X nb) = Inl e \<longrightarrow> evaluate nb = Inl e"
    by (simp add: evaluate_def forward_training)
  have h: "forward (model nb) (X nb) = Inr outputs \<and> tensor_eq (threshold outputs) (y nb) = Inl e \<longrightarrow>
        evaluate nb = Inl e"
    by (simp add: evaluate_def forward_training)
  from a b c d f g h show ?thesis by blast
qed

theorem errors_propagate_witness:
  "forward wide_model [[1, 2]] = Inl ShapeMismatch
   \<and> train_batch (wide_model, Adam_init (1 / 100), 0) ([[1, 2]], [[1]]) = Inl ShapeMismatch
   \<and> forward example_model [[1, 2]] = Inr [[sigmoid 0]]
   \<and> BCELoss [[sigmoid 0]] [[1], [0]] = Inl ShapeMismatch
   \<and> train_batch (example_model, Adam_init (1 / 100), 0) ([[1, 2]], [[1], [0]]) = Inl ShapeMismatch
   \<and> train_batches (wide_model, Adam_init (1 / 100), 0) [] = Inr (wide_model, Adam_init (1 / 100), 0)
   \<and> train_batches (wide_model, Adam_init (1 / 100), 0) ([] @ ([[1, 2]], [[1]]) # [([[3, 4]], [[0]])])
        = Inl ShapeMismatch
   \<and> train_batches ((model broken_notebook)\<lparr>training := True\<rparr>, optimizer broken_notebook, 0)
        (fst (iterate (dataloader broken_notebook) (gen broken_notebook))) = Inl ShapeMismatch
   \<and> train_epoch 100 broken_notebook 0 = Inl ShapeMismatch
   \<and> train_loop 100 broken_notebook [] = Inr broken_notebook
   \<and> train_loop 100 broken_notebook ([] @ 0 # [1, 2]) = Inl ShapeMismatch
   \<and> forward (model broken_notebook) (X broken_notebook) = Inl ShapeMismatch
   \<and> evaluate broken_notebook = Inl ShapeMismatch
   \<and> forward (model mislabelled_notebook) (X mislabelled_notebook) = Inr [[sigmoid 0], [sigmoid 0]]
   \<and> tensor_eq (threshold [[sigmoid 0], [sigmoid 0]]) (y mislabelled_notebook) = Inl ShapeMismatch
   \<and> evaluate mislabelled_notebook = Inl ShapeMismatch"
proof -
  let ?opt = "Adam_init (1 / 100)"
  let ?nb = mislabelled_notebook
  have h1: "forward wide_model (fst ([[1, 2]], [[1 :: real]])) = Inl ShapeMismatch"
    by (simp add: forward_def linear_apply_def wide_model_def)
  have h2: "forward example_model (fst ([[1, 2]], [[1 :: real], [0]])) = Inr [[sigmoid 0]]"
    by (simp add: forward_def linear_apply_def example_model_def dot_def)
  have h3: "BCELoss [[sigmoid 0]] (snd ([[1 :: real, 2]], [[1], [0]])) = Inl ShapeMismatch"
    by (simp add: BCELoss_def same_shape_def)
  have h4: "train_batches (wide_model, ?opt, 0) [] = Inr (wide_model, ?opt, 0)" by simp
  have h5: "fst (iterate (dataloader broken_notebook) (gen broken_notebook)) = [([[1, 2]], [[1]])]"
    by (simp add: iterate_def sampler_def randperm_def broken_notebook_def collate_def
        batch_sampler.simps [of 32 "[0]"] batch_sampler.simps [of 32 "[]"])
  have h6: "wide_model\<lparr>training := True\<rparr> = wide_model"
    "optimizer broken_notebook = ?opt" "model broken_notebook = wide_model"
    "X broken_notebook = [[1, 2]]"
    by (simp_all add: broken_notebook_def wide_model_def)
  have h7: "train_loop 100 broken_notebook [] = Inr broken_notebook" by simp
  have h8: "model ?nb = example_model" "X ?nb = [[1, 2], [1, 2]]" "y ?nb = [[1], [0], [1]]"
    by (simp_all add: mislabelled_notebook_def)
  have h9: "tensor_eq (threshold [[sigmoid 0], [sigmoid 0]]) [[1], [0], [1]] = Inl ShapeMismatch"
    by (simp add: tensor_eq_def threshold_def broadcast_def expand_def)
  note p1 = errors_propagate [of wide_model "([[1, 2]], [[1]])" ShapeMismatch ?opt 0 "[[sigmoid 0]]"
      "(wide_model, ?opt, 0)" "[]" "(wide_model, ?opt, 0)" "([[1, 2]], [[1]])" "[([[3, 4]], [[0]])]"
      broken_notebook 100 0 "[]" broken_notebook "[1, 2]"]
  note p2 = errors_propagate [of example_model "([[1, 2]], [[1], [0]])" ShapeMismatch ?opt 0
      "[[sigmoid 0]]" "(wide_model, ?opt, 0)" "[]" "(wide_model, ?opt, 0)" "([[1, 2]], [[1]])" "[]"
      ?nb 100 0 "[]" ?nb "[]"]
  note p3 = errors_propagate [of example_model "([[1, 2]], [[1], [0]])" ShapeMismatch ?opt 0
      "[[sigmoid 0], [sigmoid 0]]" "(wide_model, ?opt, 0)" "[]" "(wide_model, ?opt, 0)"
      "([[1, 2]], [[1]])" "[]" ?nb 100 0 "[]" ?nb "[]"]
  have c1: "train_batch (wide_model, ?opt, 0) ([[1, 2]], [[1]]) = Inl ShapeMismatch"
    using p1 h1 by blast
  have c2: "train_batch (example_model, ?opt, 0) ([[1, 2]], [[1], [0]]) = Inl ShapeMismatch"
    using p2 h2 h3 by blast
  have c3: "train_batches (wide_model, ?opt, 0) ([] @ ([[1, 2]], [[1]]) # [([[3, 4]], [[0]])])
        = Inl ShapeMismatch"
    using p1 h4 c1 by blast
  have c4: "train_batches ((model broken_notebook)\<lparr>training := True\<rparr>, optimizer broken_notebook, 0)
        (fst (iterate (dataloader broken_notebook) (gen broken_notebook))) = Inl ShapeMismatch"
    unfolding h5 h6 using c1 by simp
  have c5: "train_epoch 100 broken_notebook 0 = Inl ShapeMismatch"
    using p1 c4 by blast
  have c6: "train_loop 100 broken_notebook ([] @ 0 # [1, 2]) = Inl ShapeMismatch"
    using p1 h7 c5 by blast
  have h10: "forward (model broken_notebook) (X broken_notebook) = Inl ShapeMismatch"
    unfolding h6 using h1 by simp
  have c7: "evaluate broken_notebook = Inl ShapeMismatch"
    using p1 h10 by blast
  have h11: "forward (model ?nb) (X ?nb) = Inr [[sigmoid 0], [sigmoid 0]]"
    unfolding h8 by (simp add: forward_def linear_apply_def example_model_def dot_def)
  have h12: "tensor_eq (threshold [[sigmoid 0], [sigmoid 0]]) (y ?nb) = Inl ShapeMismatch"
    unfolding h8 by (rule h9)
  have c8: "evaluate ?nb = Inl ShapeMismatch"
    using p3 h11 h12 by blast
  from h1 h2 h3 have h123: "forward wide_model [[1, 2]] = Inl ShapeMismatch"
    "forward example_model [[1, 2]] = Inr [[sigmoid 0]]"
    "BCELoss [[sigmoid 0]] [[1], [0]] = Inl ShapeMismatch" by simp_all
  from h123 h4 h7 h10 h11 h12 c1 c2 c3 c4 c5 c6 c7 c8 show ?thesis by blast
qed

section \<open>Determinism\<close>

lemma same_draws_advance:
  assumes "same_draws g1 g2"
  shows "same_draws (g1\<lparr>offset := offset g1 + k\<rparr>) (g2\<lparr>offset := offset g2 + k\<rparr>)"
  unfolding same_draws_def
proof
  fix n
  from assms have "normal_source g1 (offset g1 + (k + n)) = normal_source g2 (offset g2 + (k + n))"
    "uniform_source g1 (offset g1 + (k + n)) = uniform_source g2 (offset g2 + (k + n))"
    "random_source g1 (offset g1 + (k + n)) = random_source g2 (offset g2 + (k + n))"
    unfolding same_draws_def by blast+
  then show "normal_source (g1\<lparr>offset := offset g1 + k\<rparr>) (offset (g1\<lparr>offset := offset g1 + k\<rparr>) + n)
      = normal_source (g2\<lparr>offset := offset g2 + k\<rparr>) (offset (g2\<lparr>offset := offset g2 + k\<rparr>) + n)
    \<and> uniform_source (g1\<lparr>offset := offset g1 + k\<rparr>) (offset (g1\<lparr>offset := offset g1 + k\<rparr>) + n)
      = uniform_source (g2\<lparr>offset := offset g2 + k\<rparr>) (offset (g2\<lparr>offset := offset g2 + k\<rparr>) + n)
    \<and> random_source (g1\<lparr>offset := offset g1 + k\<rparr>) (offset (g1\<lparr>offset := offset g1 + k\<rparr>) + n)
      = random_source (g2\<lparr>offset := offset g2 + k\<rparr>) (offset (g2\<lparr>offset := offset g2 + k\<rparr>) + n)"
    by (simp add: add.assoc)
qed

lemma randn_same:
  assumes "same_draws g1 g2"
  shows "fst (randn rows cols g1) = fst (randn rows cols g2)
         \<and> same_draws (snd (randn rows cols g1)) (snd (randn rows cols g2))"
proof -
  have "normal_source g1 (offset g1 + i * cols + j) = normal_source g2 (offset g2 + i * cols + j)"
    for i j using assms unfolding same_draws_def by (simp add: add.assoc)
  then show ?thesis using same_draws_advance [OF assms] by (simp add: randn_def)
qed

lemma uniform_init_same:
  assumes "same_draws g1 g2"
  shows "fst (uniform_init bound n g1) = fst (uniform_init bound n g2)
         \<and> same_draws (snd (uniform_init bound n g1)) (snd (uniform_init bound n g2))"
proof -
  have "uniform_source g1 (offset g1 + j) = uniform_source g2 (offset g2 + j)" for j
    using assms unfolding same_draws_def by simp
  then show ?thesis using same_draws_advance [OF assms] by (simp add: uniform_init_def)
qed

lemma LinearClassifier_init_same:
  assumes "same_draws g1 g2"
  shows "fst (LinearClassifier_init d g1) = fst (LinearClassifier_init d g2)
         \<and> same_draws (snd (LinearClassifier_init d g1)) (snd (LinearClassifier_init d g2))"
proof -
  let ?b = "if 0 < d then 1 / sqrt (real d) else 0"
  note w = uniform_init_same [OF assms, of ?b d]
  note b = uniform_init_same [OF conjunct2 [OF w], of ?b 1]
  from w b show ?thesis by (simp add: LinearClassifier_init_def split_beta Let_def)
qed

lemma randperm_same:
  assumes "same_draws g1 g2"
  shows "fst (randperm n g1) = fst (randperm n g2)
         \<and> same_draws (snd (randperm n g1)) (snd (randperm n g2))"
proof -
  have "random_source g1 (offset g1 + i) = random_source g2 (offset g2 + i)" for i
    using assms unfolding same_draws_def by simp
  then show ?thesis using same_draws_advance [OF assms] by (simp add: randperm_def)
qed

lemma iterate_same:
  assumes "same_draws g1 g2"
  shows "fst (iterate dl g1) = fst (iterate dl g2)
         \<and> same_draws (snd (iterate dl g1)) (snd (iterate dl g2))"
  using randperm_same [OF assms] assms by (simp add: iterate_def sampler_def split_beta)

lemma train_epoch_same:
  assumes "same_state nb1 nb2"
  shows "rel_sum (=) same_state (train_epoch epochs nb1 epoch) (train_epoch epochs nb2 epoch)"
proof -
  from assms have eq: "model nb2 = model nb1" "optimizer nb2 = optimizer nb1"
    "dataloader nb2 = dataloader nb1" "stdout nb2 = stdout nb1" "X nb2 = X nb1" "y nb2 = y nb1"
    and g: "same_draws (gen nb1) (gen nb2)" by (simp_all add: same_state_def)
  note it = iterate_same [OF g, of "dataloader nb1"]
  show ?thesis
    using it by (cases "train_batches ((model nb1)\<lparr>training := True\<rparr>, optimizer nb1, 0)
                        (fst (iterate (dataloader nb2) (gen nb2)))")
      (auto simp: train_epoch_def eq split_beta Let_def same_state_def)
qed

lemma train_loop_same:
  assumes "same_state nb1 nb2"
  shows "rel_sum (=) same_state (train_loop epochs nb1 es) (train_loop epochs nb2 es)"
  using assms
proof (induction es arbitrary: nb1 nb2)
  case Nil
  then show ?case by simp
next
  case (Cons e es)
  from train_epoch_same [OF Cons.prems, of epochs e] show ?case
    by (cases "train_epoch epochs nb1 e"; cases "train_epoch epochs nb2 e") (auto intro: Cons.IH)
qed

lemma evaluate_same:
  assumes "same_state nb1 nb2"
  shows "rel_sum (=) same_state (evaluate nb1) (evaluate nb2)"
proof -
  from assms have eq: "model nb2 = model nb1" "optimizer nb2 = optimizer nb1"
    "dataloader nb2 = dataloader nb1" "stdout nb2 = stdout nb1" "X nb2 = X nb1" "y nb2 = y nb1"
    and g: "same_draws (gen nb1) (gen nb2)" by (simp_all add: same_state_def)
  show ?thesis
    using g by (auto simp: evaluate_def eq Let_def same_state_def split: sum.splits)
qed

lemma init_cells_same:
  assumes "same_draws g1 g2"
  shows "rel_sum (=) same_state (init_cells g1) (init_cells g2)"
proof -
  from init_cells_Inr [of g1] obtain nb1 where nb1: "init_cells g1 = Inr nb1"
    "X nb1 = fst (randn 100 2 g1)"
    "y nb1 = map (\<lambda>r. [if 0 < r ! 0 + r ! 1 then 1 else 0]) (X nb1)"
    "dataloader nb1 = \<lparr>dataset = zip (X nb1) (y nb1), batch_size = 32, shuffle = True\<rparr>"
    "model nb1 = fst (LinearClassifier_init 2 (snd (randn 100 2 g1)))"
    "optimizer nb1 = Adam_init (1 / 100)"
    "gen nb1 = snd (LinearClassifier_init 2 (snd (randn 100 2 g1)))"
    "stdout nb1 = []" by blast
  from init_cells_Inr [of g2] obtain nb2 where nb2: "init_cells g2 = Inr nb2"
    "X nb2 = fst (randn 100 2 g2)"
    "y nb2 = map (\<lambda>r. [if 0 < r ! 0 + r ! 1 then 1 else 0]) (X nb2)"
    "dataloader nb2 = \<lparr>dataset = zip (X nb2) (y nb2), batch_size = 32, shuffle = True\<rparr>"
    "model nb2 = fst (LinearClassifier_init 2 (snd (randn 100 2 g2)))"
    "optimizer nb2 = Adam_init (1 / 100)"
    "gen nb2 = snd (LinearClassifier_init 2 (snd (randn 100 2 g2)))"
    "stdout nb2 = []" by blast
  note r = randn_same [OF assms, of 100 2]
  note i = LinearClassifier_init_same [OF conjunct2 [OF r], of 2]
  have x: "X nb1 = X nb2" using r by (simp add: nb1(2) nb2(2))
  have "same_state nb1 nb2"
    using i x by (simp add: same_state_def nb1(3-8) nb2(3-8))
  then show ?thesis by (simp add: nb1(1) nb2(1))
qed

lemma run_same:
  assumes "same_draws g1 g2"
  shows "rel_sum (=) same_state (run g1) (run g2)"
proof -
  from init_cells_same [OF assms] show ?thesis
  proof (cases "init_cells g1"; cases "init_cells g2"; simp add: run_def)
    fix nb1 nb2
    assume "same_state nb1 nb2"
    from train_loop_same [OF this, of 100 "[0..<100]"]
    show "rel_sum (=) same_state
            (case train nb1 of Inl e \<Rightarrow> Inl e | Inr nb' \<Rightarrow> evaluate nb')
            (case train nb2 of Inl e \<Rightarrow> Inl e | Inr nb' \<Rightarrow> evaluate nb')"
      by (cases "train nb1"; cases "train nb2") (auto simp: train_def intro: evaluate_same)
  qed
qed

text \<open>
  C7: two runs whose generators yield the same values both run to their end, and leave
  the same data \<open>X\<close> and \<open>y\<close>, the same trained model, the same optimizer state and the
  same printed lines, the final accuracy among them.
\<close>

theorem run_deterministic:
  assumes "same_draws g1 g2"
  shows "\<exists>nb1 nb2. run g1 = Inr nb1 \<and> run g2 = Inr nb2
           \<and> X nb1 = X nb2 \<and> y nb1 = y nb2 \<and> model nb1 = model nb2
           \<and> optimizer nb1 = optimizer nb2 \<and> stdout nb1 = stdout nb2
           \<and> (\<exists>a. last (stdout nb1) = AccuracyLine a \<and> last (stdout nb2) = AccuracyLine a)"
proof -
  from run_stages [of g1] obtain nb1 m1 :: notebook where
    r1: "run g1 = Inr nb1" "\<exists>a. stdout nb1 = stdout m1 @ [AccuracyLine a]" by blast
  from run_stages [of g2] obtain nb2 where r2: "run g2 = Inr nb2" by blast
  from run_same [OF assms] have s: "same_state nb1 nb2" by (simp add: r1 r2)
  from r1(2) obtain a where "last (stdout nb1) = AccuracyLine a" by auto
  with s r1(1) r2 show ?thesis by (auto simp: same_state_def)
qed

theorem run_deterministic_witness:
  "same_draws example_generator shifted_generator
   \<and> (\<exists>nb1 nb2. run example_generator = Inr nb1 \<and> run shifted_generator = Inr nb2
           \<and> X nb1 = X nb2 \<and> y nb1 = y nb2 \<and> model nb1 = model nb2
           \<and> optimizer nb1 = optimizer nb2 \<and> stdout nb1 = stdout nb2
           \<and> (\<exists>a. last (stdout nb1) = AccuracyLine a \<and> last (stdout nb2) = AccuracyLine a))"
proof -
  have h: "same_draws example_generator shifted_generator"
    by (simp add: same_draws_def example_generator_def shifted_generator_def)
  from run_deterministic [OF h] h show ?thesis by blast
qed

section \<open>A run on constant data\<close>

lemma sigmoid_strict_mono: "a < b \<Longrightarrow> sigmoid a < sigmoid b"
proof -
  assume "a < b"
  then have "exp (- b) < exp (- a)" by simp
  then have "1 + exp (- b) < 1 + exp (- a)" by simp
  moreover have "0 < 1 + exp (- b)" by (simp add: add_pos_pos)
  ultimately show ?thesis unfolding sigmoid_def by (simp add: frac_less2)
qed

lemma sigmoid_zero: "sigmoid 0 = 1 / 2"
  by (simp add: sigmoid_def)

lemma bce_zero_label:
  assumes "b \<le> 0"
  shows "bce (sigmoid b) 0 = - ln (1 - sigmoid b)"
proof -
  have "sigmoid b \<le> 1 / 2"
    using assms sigmoid_strict_mono [of b 0] sigmoid_zero by (cases "b = 0") auto
  then have h: "1 / 2 \<le> 1 - sigmoid b" by simp
  then have "ln (1 / 2) \<le> ln (1 - sigmoid b)" by (subst ln_le_cancel_iff) simp_all
  moreover have "ln (1 / 2 :: real) = - ln 2" by (simp add: ln_div)
  moreover have "ln (2 :: real) < 1" by (rule ln_2_less_1)
  ultimately have "- 100 \<le> ln (1 - sigmoid b)" by linarith
  with h show ?thesis by (simp add: bce_def clamped_log_def max_def)
qed

lemma bce_zero_label_mono:
  assumes "b' < b" and "b \<le> 0"
  shows "bce (sigmoid b') 0 < bce (sigmoid b) 0"
proof -
  have "sigmoid b' < sigmoid b" by (rule sigmoid_strict_mono [OF assms(1)])
  then have "1 - sigmoid b < 1 - sigmoid b'" by simp
  moreover have "0 < 1 - sigmoid b" using sigmoid_less_one [of b] by simp
  ultimately have "ln (1 - sigmoid b) < ln (1 - sigmoid b')" by (subst ln_less_cancel_iff) simp_all
  then show ?thesis using assms by (simp add: bce_zero_label)
qed

lemma mean_replicate: "0 < k \<Longrightarrow> mean (replicate k c) = c"
  by (simp add: mean_def sum_list_replicate)

lemma concat_replicate_single: "concat (replicate k [c]) = replicate k c"
  by (induction k) simp_all

lemma map2_replicate: "map2 f (replicate k a) (replicate k b) = replicate k (f a b)"
  by (simp add: zip_replicate)

lemma constant_batch_gradient:
  assumes "0 < k" and "0 < p" and "p < 1"
  shows "0 < sum_list (sigmoid_backward (bce_backward (replicate k p) (replicate k 0)) (replicate k p))"
proof -
  let ?c = "(p - 0) / max ((1 - p) * p) (1 / 10 ^ 12) / real k"
  have "0 < max ((1 - p) * p) (1 / 10 ^ 12)" by (simp add: max_def)
  with assms have c: "0 < ?c" by simp
  have x: "0 < ?c * (1 - p) * p" using c assms by simp
  have "sigmoid_backward (bce_backward (replicate k p) (replicate k 0)) (replicate k p)
      = replicate k (?c * (1 - p) * p)"
    by (simp add: sigmoid_backward_def bce_backward_def map2_replicate)
  then have "sum_list (sigmoid_backward (bce_backward (replicate k p) (replicate k 0)) (replicate k p))
      = real k * (?c * (1 - p) * p)"
    by (simp only: sum_list_replicate)
  moreover have "0 < real k" using assms(1) by simp
  then have "0 < real k * (?c * (1 - p) * p)" using x by (rule mult_pos_pos)
  ultimately show ?thesis by (simp only:)
qed

lemma adam_update_descends:
  assumes p: "data p = [b]" "grad p = Some [G]" and G: "0 < G"
    and h: "lr opt = 1 / 100" "beta1 opt = 9 / 10" "beta2 opt = 999 / 1000" "eps opt = 1 / 10 ^ 8"
    and st: "case st of None \<Rightarrow> True
             | Some s \<Rightarrow> length (exp_avg s) = 1 \<and> length (exp_avg_sq s) = 1
                 \<and> 0 \<le> hd (exp_avg s) \<and> 0 \<le> hd (exp_avg_sq s)"
  shows "\<exists>b' s'. adam_update opt p st = (p\<lparr>data := [b']\<rparr>, Some s') \<and> b' < b
           \<and> length (exp_avg s') = 1 \<and> length (exp_avg_sq s') = 1
           \<and> 0 \<le> hd (exp_avg s') \<and> 0 \<le> hd (exp_avg_sq s')"
proof -
  obtain t a v where s0: "(case st of
                       None \<Rightarrow> \<lparr>step = 0, exp_avg = replicate (length (data p)) 0,
                                 exp_avg_sq = replicate (length (data p)) 0\<rparr>
                     | Some s \<Rightarrow> s) = \<lparr>step = t, exp_avg = [a], exp_avg_sq = [v]\<rparr>"
    and av: "0 \<le> a" "0 \<le> v"
  proof (cases st)
    case None
    then show ?thesis using that [of 0 0 0] p by simp
  next
    case (Some s)
    with st obtain a v where "exp_avg s = [a]" "exp_avg_sq s = [v]" "0 \<le> a" "0 \<le> v"
      by (cases "exp_avg s"; cases "exp_avg_sq s") auto
    then show ?thesis using that [of "step s" a v] Some by (cases s) simp
  qed
  let ?a = "9 / 10 * a + (1 - 9 / 10) * G"
  let ?v = "999 / 1000 * v + (1 - 999 / 1000) * G * G"
  let ?bc1 = "1 - (9 / 10 :: real) ^ (t + 1)"
  let ?bc2 = "1 - (999 / 1000 :: real) ^ (t + 1)"
  let ?denom = "sqrt ?v / sqrt ?bc2 + 1 / 10 ^ 8"
  let ?b = "b - 1 / 100 / ?bc1 * (?a / ?denom)"
  have a': "0 < ?a" using av(1) G by (simp add: add_nonneg_pos)
  have v': "0 \<le> ?v" using av(2) G by simp
  have "(9 / 10 :: real) ^ (t + 1) < 1" by (intro power_Suc_less_one [simplified] power_less_one_iff [THEN iffD2]) simp_all
  then have bc1: "0 < ?bc1" by simp
  have "(999 / 1000 :: real) ^ (t + 1) < 1" by (intro power_less_one_iff [THEN iffD2]) simp_all
  then have bc2: "0 < ?bc2" by simp
  have "0 \<le> sqrt ?v / sqrt ?bc2" using v' bc2 by simp
  then have denom: "0 < ?denom" by (simp add: add_nonneg_pos)
  have "0 < 1 / 100 / ?bc1 * (?a / ?denom)" using bc1 a' denom by simp
  then have lt: "?b < b" by simp
  have "adam_update opt p st = (p\<lparr>data := [?b]\<rparr>, Some \<lparr>step = t + 1, exp_avg = [?a], exp_avg_sq = [?v]\<rparr>)"
    by (simp only: adam_update_def s0) (simp add: p h Let_def)
  with lt a' v' show ?thesis by (intro exI [of _ ?b] exI [of _ "\<lparr>step = t + 1, exp_avg = [?a], exp_avg_sq = [?v]\<rparr>"]) simp
qed

lemma train_batch_explicit:
  assumes m: "model_shape d m" and b: "batch_shape d batch"
  shows "train_batch (m, opt, running_loss) batch =
    (let outputs = map (\<lambda>r. [sigmoid (dot r (data (linear_weight m)) + hd (data (linear_bias m)))])
                       (fst batch);
         m2 = backward (zero_grad m) (fst batch) outputs (snd batch)
     in Inr (fst (optimizer_step opt m2), snd (optimizer_step opt m2),
             running_loss + mean (map2 bce (concat outputs) (concat (snd batch)))))"
proof -
  obtain inputs labels where batch: "batch = (inputs, labels)" by (cases batch)
  let ?n = "length inputs"
  from b have rows: "list_all (\<lambda>r. length r = length (data (linear_weight m))) inputs"
    and lab: "has_shape ?n 1 labels"
    using m by (simp_all add: batch_shape_def batch has_shape_def model_shape_def)
  from m have bias: "length (data (linear_bias m)) = 1" by (simp add: model_shape_def)
  let ?outputs = "map (\<lambda>r. [sigmoid (dot r (data (linear_weight m)) + hd (data (linear_bias m)))]) inputs"
  have fw: "forward m inputs = Inr ?outputs" by (rule forward_Inr [OF rows bias])
  have osh: "has_shape ?n 1 ?outputs" by (simp add: has_shape_def list_all_iff)
  have orange: "list_all (\<lambda>p. 0 \<le> p \<and> p \<le> 1) (concat ?outputs)"
    by (simp add: list_all_iff sigmoid_range)
  have loss: "BCELoss ?outputs labels = Inr (mean (map2 bce (concat ?outputs) (concat labels)))"
    by (rule BCELoss_Inr [OF osh lab orange])
  show ?thesis by (simp add: train_batch_def batch fw loss Let_def split_beta)
qed

lemma dot_zero: "dot [0, 0] w = 0"
  by (cases w; cases "tl w") (auto simp: dot_def)

lemma constant_batch_step:
  assumes inv: "descending_bias m opt" and zb: "zero_batch batch"
  shows "\<exists>m' opt'. train_batch (m, opt, running_loss) batch
            = Inr (m', opt', running_loss + bce (sigmoid (hd (data (linear_bias m)))) 0)
           \<and> descending_bias m' opt'
           \<and> hd (data (linear_bias m')) < hd (data (linear_bias m))
           \<and> training m' = training m"
proof -
  let ?b = "hd (data (linear_bias m))"
  let ?p = "sigmoid ?b"
  from zb obtain k where k: "0 < k" and batch: "batch = (replicate k [0, 0], replicate k [0])"
    unfolding zero_batch_def by (metis prod.collapse)
  from inv have ms: "model_shape 2 m" and os: "optimizer_shape 2 opt" and b0: "?b \<le> 0"
    and hy: "lr opt = 1 / 100" "beta1 opt = 9 / 10" "beta2 opt = 999 / 1000" "eps opt = 1 / 10 ^ 8"
    and bs: "case bias_state opt of None \<Rightarrow> True
             | Some s \<Rightarrow> 0 \<le> hd (exp_avg s) \<and> 0 \<le> hd (exp_avg_sq s)"
    by (simp_all add: descending_bias_def)
  from ms obtain b where bias: "data (linear_bias m) = [b]"
    by (cases "data (linear_bias m)") (auto simp: model_shape_def)
  then have hb: "?b = b" by simp
  have bsh: "batch_shape 2 batch"
    by (simp add: batch batch_shape_def has_shape_def list_all_iff)
  let ?outputs = "map (\<lambda>r. [sigmoid (dot r (data (linear_weight m)) + ?b)]) (fst batch)"
  have outs: "?outputs = replicate k [?p]"
    by (simp add: batch dot_zero)
  let ?gs = "sigmoid_backward (bce_backward (replicate k ?p) (replicate k 0)) (replicate k ?p)"
  let ?G = "sum_list ?gs"
  have G: "0 < ?G" by (rule constant_batch_gradient [OF k sigmoid_pos sigmoid_less_one])
  let ?m2 = "backward (zero_grad m) (fst batch) ?outputs (snd batch)"
  have loss: "mean (map2 bce (concat ?outputs) (concat (snd batch))) = bce ?p 0"
    unfolding outs
    by (simp add: batch concat_replicate_single map2_replicate mean_replicate [OF k])
  have tb: "train_batch (m, opt, running_loss) batch
      = Inr (fst (optimizer_step opt ?m2), snd (optimizer_step opt ?m2), running_loss + bce ?p 0)"
    using train_batch_explicit [OF ms bsh, of opt running_loss] loss by (simp add: Let_def)
  from train_batch_Inr [OF ms os bsh, of running_loss] tb
  have sh: "model_shape 2 (fst (optimizer_step opt ?m2))"
    "optimizer_shape 2 (snd (optimizer_step opt ?m2))"
    "training (fst (optimizer_step opt ?m2)) = training m" by auto
  have m2b: "data (linear_bias ?m2) = [?b]" "grad (linear_bias ?m2) = Some [?G]"
    unfolding backward_zero_grad outs hb
    by (simp_all add: bias linear_backward_def batch concat_replicate_single dot_zero)
  have st: "case bias_state opt of None \<Rightarrow> True
             | Some s \<Rightarrow> length (exp_avg s) = 1 \<and> length (exp_avg_sq s) = 1
                 \<and> 0 \<le> hd (exp_avg s) \<and> 0 \<le> hd (exp_avg_sq s)"
    using bs os by (auto simp: optimizer_shape_def adam_state_shape_def split: option.splits)
  from adam_update_descends [OF m2b G hy st] obtain b' s' where
    au: "adam_update opt (linear_bias ?m2) (bias_state opt) = ((linear_bias ?m2)\<lparr>data := [b']\<rparr>, Some s')"
    and b': "b' < ?b" and s': "0 \<le> hd (exp_avg s')" "0 \<le> hd (exp_avg_sq s')" by blast
  have nb: "linear_bias (fst (optimizer_step opt ?m2)) = (linear_bias ?m2)\<lparr>data := [b']\<rparr>"
    and ns: "bias_state (snd (optimizer_step opt ?m2)) = Some s'"
    and nh: "lr (snd (optimizer_step opt ?m2)) = lr opt"
      "beta1 (snd (optimizer_step opt ?m2)) = beta1 opt"
      "beta2 (snd (optimizer_step opt ?m2)) = beta2 opt"
      "eps (snd (optimizer_step opt ?m2)) = eps opt"
    by (simp_all add: optimizer_step_def split_beta au)
  have "descending_bias (fst (optimizer_step opt ?m2)) (snd (optimizer_step opt ?m2))"
    using sh b' b0 s' by (simp add: descending_bias_def nb ns nh hy)
  moreover have "hd (data (linear_bias (fst (optimizer_step opt ?m2)))) < ?b"
    using b' by (simp add: nb)
  ultimately show ?thesis using tb sh(3) by blast
qed

lemma constant_batches:
  assumes "descending_bias m opt" and "list_all zero_batch bs"
  shows "\<exists>m' opt'. train_batches (m, opt, running_loss) bs
            = Inr (m', opt', running_loss + sum_list (pass_losses (m, opt) bs))
           \<and> descending_bias m' opt' \<and> training m' = training m
           \<and> sorted_wrt (>) (pass_losses (m, opt) bs)
           \<and> list_all (\<lambda>l. l \<le> bce (sigmoid (hd (data (linear_bias m)))) 0) (pass_losses (m, opt) bs)"
  using assms
proof (induction bs arbitrary: m opt running_loss)
  case Nil
  then show ?case by simp
next
  case (Cons b bs)
  let ?l = "bce (sigmoid (hd (data (linear_bias m)))) 0"
  from Cons.prems have zb: "zero_batch b" and zbs: "list_all zero_batch bs" by simp_all
  from constant_batch_step [OF Cons.prems(1) zb, of running_loss] obtain m1 opt1 where
    s: "train_batch (m, opt, running_loss) b = Inr (m1, opt1, running_loss + ?l)"
    and inv: "descending_bias m1 opt1"
    and lt: "hd (data (linear_bias m1)) < hd (data (linear_bias m))"
    and tr: "training m1 = training m" by blast
  from constant_batch_step [OF Cons.prems(1) zb, of 0] s have
    s0: "train_batch (m, opt, 0) b = Inr (m1, opt1, ?l)"
    by (auto simp: train_batch_def Let_def split_beta split: sum.splits)
  from Cons.IH [OF inv zbs, of "running_loss + ?l"] obtain m' opt' where
    r: "train_batches (m1, opt1, running_loss + ?l) bs
          = Inr (m', opt', running_loss + ?l + sum_list (pass_losses (m1, opt1) bs))"
    and r': "descending_bias m' opt'" "training m' = training m1"
      "sorted_wrt (>) (pass_losses (m1, opt1) bs)"
      "list_all (\<lambda>l. l \<le> bce (sigmoid (hd (data (linear_bias m1)))) 0) (pass_losses (m1, opt1) bs)"
    by blast
  from Cons.prems(1) have "hd (data (linear_bias m)) \<le> 0" by (simp add: descending_bias_def)
  from bce_zero_label_mono [OF lt this]
  have less: "bce (sigmoid (hd (data (linear_bias m1)))) 0 < ?l" .
  have below: "list_all (\<lambda>l. l < ?l) (pass_losses (m1, opt1) bs)"
    using r'(4) less by (auto simp: list_all_iff)
  have pl: "pass_losses (m, opt) (b # bs) = ?l # pass_losses (m1, opt1) bs"
    using pass_losses_Cons [OF s0, of bs] by simp
  have a: "sorted_wrt (>) (pass_losses (m, opt) (b # bs))"
    unfolding pl using below r'(3) by (auto simp: list_all_iff)
  have b: "list_all (\<lambda>l. l \<le> ?l) (pass_losses (m, opt) (b # bs))"
    unfolding pl using below by (auto simp: list_all_iff)
  have c: "train_batches (m, opt, running_loss) (b # bs)
      = Inr (m', opt', running_loss + sum_list (pass_losses (m, opt) (b # bs)))"
    unfolding pl using s r by (simp add: add.assoc)
  from a b c r'(1,2) tr show ?case by auto
qed

lemma unequal_means:
  assumes "map (\<lambda>b. length (fst b)) batches = [32, 32, 32, 4]"
    and "length losses = 4" and "sorted_wrt (>) losses"
  shows "sum_list losses / 4 \<noteq> per_sample_mean batches losses"
proof -
  from assms(1) obtain b1 b2 b3 b4 where bs: "batches = [b1, b2, b3, b4]"
    and l: "length (fst b1) = 32" "length (fst b2) = 32" "length (fst b3) = 32" "length (fst b4) = 4"
    by (auto simp: map_eq_Cons_conv)
  from assms(2) obtain l1 l2 l3 l4 where ls: "losses = [l1, l2, l3, l4 :: real]"
    by (auto simp: length_Suc_conv eval_nat_numeral)
  from assms(3) have o: "l2 < l1" "l3 < l2" "l4 < l3" by (simp_all add: ls)
  have "per_sample_mean batches losses = (32 * l1 + 32 * l2 + 32 * l3 + 4 * l4) / 100"
    by (simp add: per_sample_mean_def bs ls l)
  moreover have "sum_list losses / 4 = (l1 + l2 + l3 + l4) / 4" by (simp add: ls)
  moreover have "(l1 + l2 + l3 + l4) / 4 \<noteq> (32 * l1 + 32 * l2 + 32 * l3 + 4 * l4) / 100"
    using o by (simp add: field_simps)
  ultimately show ?thesis by simp
qed

lemma iterate_zero_batches:
  assumes "constant_data nb"
  shows "list_all zero_batch (fst (iterate (dataloader nb) (gen nb)))"
proof -
  let ?batches = "fst (iterate (dataloader nb) (gen nb))"
  from assms have ok: "notebook_ok nb" and x: "X nb = replicate 100 [0, 0]"
    and y: "y nb = replicate 100 [0]" by (simp_all add: constant_data_def)
  from iterate_batches [OF ok] have sh: "list_all (batch_shape 2) ?batches"
    and lens: "map (\<lambda>b. length (fst b)) ?batches = [32, 32, 32, 4]"
    and ms: "mset (concat (map (\<lambda>b. zip (fst b) (snd b)) ?batches)) = mset (zip (X nb) (y nb))"
    by simp_all
  have "zero_batch b" if b: "b \<in> set ?batches" for b
  proof -
    let ?n = "length (fst b)"
    from b have "?n \<in> set (map (\<lambda>b. length (fst b)) ?batches)" by simp
    then have n: "0 < ?n" unfolding lens by auto
    from sh b have len: "length (snd b) = ?n"
      by (auto simp: list_all_iff batch_shape_def has_shape_def)
    have "set (zip (fst b) (snd b)) \<subseteq> set (concat (map (\<lambda>b. zip (fst b) (snd b)) ?batches))"
      using b by auto
    also have "\<dots> = set_mset (mset (zip (X nb) (y nb)))" by (simp only: ms [symmetric] set_mset_mset)
    also have "\<dots> \<subseteq> {([0, 0], [0])}" by (simp add: x y zip_replicate)
    finally have "\<forall>s\<in>set (zip (fst b) (snd b)). s = ([0, 0], [0])" by blast
    then have "replicate (length (zip (fst b) (snd b))) ([0, 0], [0]) = zip (fst b) (snd b)"
      by (rule replicate_length_same)
    then have z: "zip (fst b) (snd b) = replicate ?n ([0, 0], [0])" using len by simp
    have "fst b = map fst (zip (fst b) (snd b))" "snd b = map snd (zip (fst b) (snd b))"
      using len by simp_all
    then have "fst b = replicate ?n [0, 0]" "snd b = replicate ?n [0]"
      unfolding z by simp_all
    with n show ?thesis unfolding zero_batch_def by blast
  qed
  then show ?thesis by (simp add: list_all_iff)
qed

lemma constant_epoch:
  assumes "constant_data nb"
  shows "\<exists>nb'. train_epoch epochs nb epoch = Inr nb' \<and> constant_data nb'
           \<and> stdout nb' = stdout nb @
               (if (epoch + 1) mod 10 = 0
                then [LossLine (epoch + 1) epochs
                        (sum_list (pass_losses ((model nb)\<lparr>training := True\<rparr>, optimizer nb)
                                     (fst (iterate (dataloader nb) (gen nb)))) / 4)]
                else [])
           \<and> sum_list (pass_losses ((model nb)\<lparr>training := True\<rparr>, optimizer nb)
                          (fst (iterate (dataloader nb) (gen nb)))) / 4
               \<noteq> per_sample_mean (fst (iterate (dataloader nb) (gen nb)))
                    (pass_losses ((model nb)\<lparr>training := True\<rparr>, optimizer nb)
                       (fst (iterate (dataloader nb) (gen nb))))"
proof -
  let ?m = "(model nb)\<lparr>training := True\<rparr>"
  let ?batches = "fst (iterate (dataloader nb) (gen nb))"
  let ?losses = "pass_losses (?m, optimizer nb) ?batches"
  from assms have ok: "notebook_ok nb" and x: "X nb = replicate 100 [0, 0]"
    and y: "y nb = replicate 100 [0]" and d: "descending_bias (model nb) (optimizer nb)"
    by (simp_all add: constant_data_def)
  from d have d': "descending_bias ?m (optimizer nb)"
    by (simp add: descending_bias_def model_shape_def)
  from train_epoch_Inr [OF ok, of epochs epoch] obtain nb' where
    s: "train_epoch epochs nb epoch = Inr nb'" and ok': "notebook_ok nb'"
    and fr: "X nb' = X nb" "y nb' = y nb"
    and len: "length ?losses = 4"
    and out: "stdout nb' = stdout nb @
               (if (epoch + 1) mod 10 = 0
                then [LossLine (epoch + 1) epochs (sum_list ?losses / 4)] else [])" by blast
  from constant_batches [OF d' iterate_zero_batches [OF assms], of 0] obtain m' opt' where
    tb: "train_batches (?m, optimizer nb, 0) ?batches = Inr (m', opt', 0 + sum_list ?losses)"
    and inv: "descending_bias m' opt'" and sorted: "sorted_wrt (>) ?losses" by blast
  have "model nb' = m' \<and> optimizer nb' = opt'"
    using s tb by (auto simp: train_epoch_def split_beta Let_def split: if_splits)
  with inv ok' fr x y have c: "constant_data nb'" by (simp add: constant_data_def)
  from iterate_batches [OF ok] have lens: "map (\<lambda>b. length (fst b)) ?batches = [32, 32, 32, 4]"
    by simp
  from unequal_means [OF lens len sorted] s c out show ?thesis by blast
qed

lemma constant_loop:
  assumes "constant_data nb"
  shows "\<exists>nb'. train_loop epochs nb es = Inr nb' \<and> constant_data nb'
           \<and> (list_all (\<lambda>e. (e + 1) mod 10 \<noteq> 0) es \<longrightarrow> stdout nb' = stdout nb)"
  using assms
proof (induction es arbitrary: nb)
  case Nil
  then show ?case by simp
next
  case (Cons e es)
  from constant_epoch [OF Cons.prems, of epochs e] obtain nb1 where
    s: "train_epoch epochs nb e = Inr nb1" and c: "constant_data nb1"
    and out: "stdout nb1 = stdout nb @
               (if (e + 1) mod 10 = 0
                then [LossLine (e + 1) epochs
                        (sum_list (pass_losses ((model nb)\<lparr>training := True\<rparr>, optimizer nb)
                                     (fst (iterate (dataloader nb) (gen nb)))) / 4)]
                else [])" by blast
  from Cons.IH [OF c] obtain nb' where
    r: "train_loop epochs nb1 es = Inr nb'" "constant_data nb'"
      "list_all (\<lambda>e. (e + 1) mod 10 \<noteq> 0) es \<longrightarrow> stdout nb' = stdout nb1" by blast
  show ?case using s r out by auto
qed

lemma zero_generator_start:
  "\<exists>nb. init_cells zero_generator = Inr nb \<and> constant_data nb \<and> stdout nb = []"
proof -
  from init_cells_Inr [of zero_generator] obtain nb where nb: "init_cells zero_generator = Inr nb"
    "X nb = fst (randn 100 2 zero_generator)"
    "y nb = map (\<lambda>r. [if 0 < r ! 0 + r ! 1 then 1 else 0]) (X nb)"
    "model nb = fst (LinearClassifier_init 2 (snd (randn 100 2 zero_generator)))"
    "optimizer nb = Adam_init (1 / 100)" "stdout nb = []" by blast
  from init_cells_ok [of zero_generator] nb(1) have ok: "notebook_ok nb" by auto
  have x: "X nb = replicate 100 [0, 0]"
    by (simp add: nb(2) randn_def zero_generator_def map_replicate_const numeral_2_eq_2)
  have y: "y nb = replicate 100 [0]" by (simp add: nb(3) x)
  have b: "hd (data (linear_bias (model nb))) = 0"
    by (simp add: nb(4) LinearClassifier_init_def uniform_init_def randn_def zero_generator_def
        split_beta Let_def)
  from ok have "model_shape 2 (model nb)" "optimizer_shape 2 (optimizer nb)"
    by (simp_all add: notebook_ok_def)
  with b have "descending_bias (model nb) (optimizer nb)"
    by (simp add: descending_bias_def nb(5) Adam_init_def)
  with ok x y nb(1,6) show ?thesis by (simp add: constant_data_def)
qed

section \<open>The range of the forward pass on floats\<close>

lemma f32_round_Finite: "\<bar>r\<bar> \<le> 3 * 10 ^ 36 \<Longrightarrow> f32_round r = Finite r"
proof -
  assume a: "\<bar>r\<bar> \<le> 3 * 10 ^ 36"
  have "(3 * 10 ^ 36 :: real) < f32_overflow" by (simp add: f32_overflow_def)
  with a have "r < f32_overflow" "- f32_overflow < r" by linarith+
  then show ?thesis by (simp add: f32_round_def)
qed



lemma product_bound:
  assumes "\<bar>a\<bar> \<le> 10 ^ 18" and "\<bar>c\<bar> \<le> 10 ^ 18"
  shows "\<bar>a * c\<bar> \<le> (10 ^ 36 :: real)"
proof -
  have "\<bar>a * c\<bar> = \<bar>a\<bar> * \<bar>c\<bar>" by (rule abs_mult)
  also have "\<dots> \<le> 10 ^ 18 * 10 ^ 18" using assms by (intro mult_mono) simp_all
  finally show ?thesis by simp
qed






text \<open>
  Inside the range the two forward passes agree: on reals of magnitude at most \<open>10^18\<close> the
  pass on floats returns the values of the pass on reals.
\<close>

lemma linear_f32_value:
  assumes "\<bar>a0\<bar> \<le> 10 ^ 18" "\<bar>a1\<bar> \<le> 10 ^ 18" "\<bar>c0\<bar> \<le> 10 ^ 18" "\<bar>c1\<bar> \<le> 10 ^ 18"
    "\<bar>d\<bar> \<le> 10 ^ 18"
  shows "f32_add (foldl f32_add (Finite 0) (map2 f32_mul [Finite a0, Finite a1] [Finite c0, Finite c1]))
           (Finite d) = Finite (dot [a0, a1] [c0, c1] + d)"
proof -
  note p0 = product_bound [OF assms(1) assms(3)]
  note p1 = product_bound [OF assms(2) assms(4)]
  have r0: "f32_round (a0 * c0) = Finite (a0 * c0)" using p0 by (intro f32_round_Finite) simp
  have r1: "f32_round (a1 * c1) = Finite (a1 * c1)" using p1 by (intro f32_round_Finite) simp
  have r2: "f32_round (a0 * c0 + a1 * c1) = Finite (a0 * c0 + a1 * c1)"
    using p0 p1 by (intro f32_round_Finite) linarith
  have "(10 :: real) ^ 18 \<le> 10 ^ 36" by simp
  then have r3: "f32_round (a0 * c0 + a1 * c1 + d) = Finite (a0 * c0 + a1 * c1 + d)"
    using p0 p1 assms(5) by (intro f32_round_Finite) linarith
  show ?thesis by (simp add: r0 r1 r2 r3 dot_def)
qed

lemma forward_f32_agrees:
  assumes m: "model_shape 2 m" and x: "list_all (\<lambda>r. length r = 2) x"
    and bd: "list_all (\<lambda>r. \<bar>r\<bar> \<le> 10 ^ 18)
               (data (linear_weight m) @ data (linear_bias m) @ concat x)"
  shows "forward_f32 (map Finite (data (linear_weight m))) (map Finite (data (linear_bias m)))
           (map (map Finite) x) = map_sum id (map (map Finite)) (forward m x)"
proof -
  from m obtain c0 c1 where w: "data (linear_weight m) = [c0, c1]"
    by (cases "data (linear_weight m)"; cases "tl (data (linear_weight m))")
      (auto simp: model_shape_def)
  from m obtain d where b: "data (linear_bias m) = [d]"
    by (cases "data (linear_bias m)") (auto simp: model_shape_def)
  have fw: "forward m x = Inr (map (\<lambda>r. [sigmoid (dot r [c0, c1] + d)]) x)"
  proof -
    have "list_all (\<lambda>r. length r = length (data (linear_weight m))) x" using x by (simp add: w numeral_2_eq_2)
    from forward_Inr [OF this] show ?thesis by (simp add: w b)
  qed
  have row: "[sigmoid_f32 (f32_add (foldl f32_add (Finite 0)
                 (map2 f32_mul (map Finite r) [Finite c0, Finite c1])) (Finite d))]
             = map Finite [sigmoid (dot r [c0, c1] + d)]" if r: "r \<in> set x" for r
  proof -
    from r x have "length r = 2" by (simp add: list_all_iff)
    then obtain a0 a1 where rr: "r = [a0, a1]" by (cases r; cases "tl r") auto
    from bd r have "\<bar>a0\<bar> \<le> 10 ^ 18" "\<bar>a1\<bar> \<le> 10 ^ 18" "\<bar>c0\<bar> \<le> 10 ^ 18" "\<bar>c1\<bar> \<le> 10 ^ 18"
      "\<bar>d\<bar> \<le> 10 ^ 18" by (auto simp: list_all_iff w b rr)
    from linear_f32_value [OF this] show ?thesis by (simp add: rr)
  qed
  have "forward_f32 [Finite c0, Finite c1] [Finite d] (map (map Finite) x)
          = Inr (map (\<lambda>r. [sigmoid_f32 (f32_add (foldl f32_add (Finite 0)
                 (map2 f32_mul (map Finite r) [Finite c0, Finite c1])) (Finite d))]) x)"
    using x by (simp add: forward_f32_def linear_f32_def list_all_iff comp_def)
  also have "\<dots> = Inr (map (\<lambda>r. map Finite [sigmoid (dot r [c0, c1] + d)]) x)"
    using row by (simp cong: map_cong)
  finally show ?thesis by (simp add: fw w b comp_def)
qed

section \<open>The states of one pass\<close>

lemma train_batches_trace:
  assumes "train_batches (m, opt, running_loss) bs = Inr st'"
  shows "\<exists>sts. length sts = length bs + 1 \<and> sts ! 0 = (m, opt, running_loss)
           \<and> sts ! length bs = st'
           \<and> length (pass_losses (m, opt) bs) = length bs
           \<and> snd (snd st') = running_loss + sum_list (pass_losses (m, opt) bs)
           \<and> (\<forall>k<length bs. train_batch (sts ! k) (bs ! k) = Inr (sts ! (k + 1))
                  \<and> batch_loss (fst (sts ! k)) (bs ! k) = Inr (pass_losses (m, opt) bs ! k))"
  using assms
proof (induction bs arbitrary: m opt running_loss)
  case Nil
  then show ?case by (intro exI [of _ "[(m, opt, running_loss)]"]) auto
next
  case (Cons b bs)
  from Cons.prems obtain m1 opt1 l1 where
    s: "train_batch (m, opt, running_loss) b = Inr (m1, opt1, l1)"
    and r: "train_batches (m1, opt1, l1) bs = Inr st'"
    by (auto split: sum.splits)
  from train_batch_loss [OF s, of running_loss] obtain loss where
    bl: "batch_loss m b = Inr loss" and l1: "l1 = running_loss + loss" by blast
  have pl: "pass_losses (m, opt) (b # bs) = loss # pass_losses (m1, opt1) bs"
    using pass_losses_Cons [OF s, of bs] l1 by simp
  from Cons.IH [OF r] obtain sts where
    t: "length sts = length bs + 1" "sts ! 0 = (m1, opt1, l1)" "sts ! length bs = st'"
      "length (pass_losses (m1, opt1) bs) = length bs"
      "snd (snd st') = l1 + sum_list (pass_losses (m1, opt1) bs)"
    and u: "\<forall>k<length bs. train_batch (sts ! k) (bs ! k) = Inr (sts ! (k + 1))
              \<and> batch_loss (fst (sts ! k)) (bs ! k) = Inr (pass_losses (m1, opt1) bs ! k)"
    by blast
  let ?sts = "(m, opt, running_loss) # sts"
  have step: "train_batch (?sts ! k) ((b # bs) ! k) = Inr (?sts ! (k + 1))
              \<and> batch_loss (fst (?sts ! k)) ((b # bs) ! k) = Inr (pass_losses (m, opt) (b # bs) ! k)"
    if k: "k < length (b # bs)" for k
  proof (cases k)
    case 0
    then show ?thesis unfolding pl using s bl t(2) by simp
  next
    case (Suc j)
    with k have "j < length bs" by simp
    with u show ?thesis unfolding pl by (simp add: Suc)
  qed
  have "length ?sts = length (b # bs) + 1" "?sts ! 0 = (m, opt, running_loss)"
    "?sts ! length (b # bs) = st'" using t(1,3) by simp_all
  moreover have "length (pass_losses (m, opt) (b # bs)) = length (b # bs)"
    unfolding pl using t(4) by simp
  moreover have "snd (snd st') = running_loss + sum_list (pass_losses (m, opt) (b # bs))"
    unfolding pl using t(5) l1 by simp
  ultimately show ?case using step by (intro exI [of _ ?sts]) blast
qed

lemma train_epoch_pass:
  assumes "train_epoch epochs nb epoch = Inr nb'"
  shows "\<exists>l. train_batches ((model nb)\<lparr>training := True\<rparr>, optimizer nb, 0)
               (fst (iterate (dataloader nb) (gen nb))) = Inr (model nb', optimizer nb', l)
           \<and> gen nb' = snd (iterate (dataloader nb) (gen nb))
           \<and> stdout nb' = stdout nb @
                (if (epoch + 1) mod 10 = 0
                 then [LossLine (epoch + 1) epochs (l / real (len_dataloader (dataloader nb)))]
                 else [])"
  using assms
  by (auto simp: train_epoch_def split_beta Let_def split: sum.splits if_splits)

section \<open>The loop body on the batches of an epoch\<close>

text \<open>
  C4: in a notebook state with the script's shapes, one pass over the loader yields four
  batches of 32, 32, 32 and 4 samples, which together hold every sample of the dataset
  exactly once. The epoch runs the loop body once on each of them, in order, starting
  from the model in training mode, the optimizer and a running loss of zero: the state
  after batch \<open>k\<close> comes from the state before it by the forward pass on the inputs of
  batch \<open>k\<close>, the loss against its labels, \<^verbatim>\<open>zero_grad\<close>, \<^verbatim>\<open>backward\<close>, the optimizer step and
  the addition of the loss to the running loss. The model and the optimizer that the epoch
  leaves are those after the fourth batch, and the optimizer has taken four steps.
\<close>

theorem epoch_batches:
  assumes "notebook_ok nb"
  shows "map (\<lambda>b. length (fst b)) (fst (iterate (dataloader nb) (gen nb))) = [32, 32, 32, 4]
         \<and> mset (concat (map (\<lambda>b. zip (fst b) (snd b)) (fst (iterate (dataloader nb) (gen nb)))))
             = mset (zip (X nb) (y nb))
         \<and> length (zip (X nb) (y nb)) = 100
         \<and> (\<exists>sts nb'. length sts = 5
               \<and> sts ! 0 = ((model nb)\<lparr>training := True\<rparr>, optimizer nb, 0)
               \<and> (\<forall>k<4. \<exists>outputs loss.
                      forward (fst (sts ! k)) (fst (fst (iterate (dataloader nb) (gen nb)) ! k))
                        = Inr outputs
                    \<and> BCELoss outputs (snd (fst (iterate (dataloader nb) (gen nb)) ! k)) = Inr loss
                    \<and> sts ! (k + 1) =
                        (fst (optimizer_step (fst (snd (sts ! k)))
                               (backward (zero_grad (fst (sts ! k)))
                                  (fst (fst (iterate (dataloader nb) (gen nb)) ! k)) outputs
                                  (snd (fst (iterate (dataloader nb) (gen nb)) ! k)))),
                         snd (optimizer_step (fst (snd (sts ! k)))
                               (backward (zero_grad (fst (sts ! k)))
                                  (fst (fst (iterate (dataloader nb) (gen nb)) ! k)) outputs
                                  (snd (fst (iterate (dataloader nb) (gen nb)) ! k)))),
                         snd (snd (sts ! k)) + loss))
               \<and> train_epoch epochs nb epoch = Inr nb'
               \<and> model nb' = fst (sts ! 4) \<and> optimizer nb' = fst (snd (sts ! 4))
               \<and> steps_taken (optimizer nb') = steps_taken (optimizer nb) + 4)"
proof -
  let ?batches = "fst (iterate (dataloader nb) (gen nb))"
  from assms have n: "length (zip (X nb) (y nb)) = 100" by (simp add: notebook_ok_def has_shape_def)
  from iterate_batches [OF assms] have lens: "map (\<lambda>b. length (fst b)) ?batches = [32, 32, 32, 4]"
    and ms: "mset (concat (map (\<lambda>b. zip (fst b) (snd b)) ?batches)) = mset (zip (X nb) (y nb))"
    by simp_all
  have "length (map (\<lambda>b. length (fst b)) ?batches) = length [32, 32, 32, 4 :: nat]"
    by (simp only: lens)
  then have len: "length ?batches = 4" by simp
  from train_epoch_Inr [OF assms, of epochs epoch] obtain nb' where
    s: "train_epoch epochs nb epoch = Inr nb'"
    and st: "steps_taken (optimizer nb') = steps_taken (optimizer nb) + 4" by blast
  from train_epoch_pass [OF s] obtain l where
    tb: "train_batches ((model nb)\<lparr>training := True\<rparr>, optimizer nb, 0) ?batches
           = Inr (model nb', optimizer nb', l)" by blast
  from train_batches_trace [OF tb] obtain sts where
    t: "length sts = length ?batches + 1" "sts ! 0 = ((model nb)\<lparr>training := True\<rparr>, optimizer nb, 0)"
      "sts ! length ?batches = (model nb', optimizer nb', l)"
    and u: "\<forall>k<length ?batches. train_batch (sts ! k) (?batches ! k) = Inr (sts ! (k + 1))"
    by blast
  have body: "\<exists>outputs loss.
                      forward (fst (sts ! k)) (fst (?batches ! k)) = Inr outputs
                    \<and> BCELoss outputs (snd (?batches ! k)) = Inr loss
                    \<and> sts ! (k + 1) =
                        (fst (optimizer_step (fst (snd (sts ! k)))
                               (backward (zero_grad (fst (sts ! k)))
                                  (fst (?batches ! k)) outputs (snd (?batches ! k)))),
                         snd (optimizer_step (fst (snd (sts ! k)))
                               (backward (zero_grad (fst (sts ! k)))
                                  (fst (?batches ! k)) outputs (snd (?batches ! k)))),
                         snd (snd (sts ! k)) + loss)" if k: "k < 4" for k
  proof -
    from u k len have "train_batch (sts ! k) (?batches ! k) = Inr (sts ! (k + 1))" by simp
    then have "train_batch (fst (sts ! k), fst (snd (sts ! k)), snd (snd (sts ! k)))
                 (fst (?batches ! k), snd (?batches ! k)) = Inr (sts ! (k + 1))" by simp
    from train_batch_steps [OF this] show ?thesis .
  qed
  have fin: "length sts = 5" "model nb' = fst (sts ! 4)" "optimizer nb' = fst (snd (sts ! 4))"
    using t(1,3) len by simp_all
  from body fin t(2) s st have "\<exists>sts nb'. length sts = 5
               \<and> sts ! 0 = ((model nb)\<lparr>training := True\<rparr>, optimizer nb, 0)
               \<and> (\<forall>k<4. \<exists>outputs loss.
                      forward (fst (sts ! k)) (fst (?batches ! k)) = Inr outputs
                    \<and> BCELoss outputs (snd (?batches ! k)) = Inr loss
                    \<and> sts ! (k + 1) =
                        (fst (optimizer_step (fst (snd (sts ! k)))
                               (backward (zero_grad (fst (sts ! k)))
                                  (fst (?batches ! k)) outputs (snd (?batches ! k)))),
                         snd (optimizer_step (fst (snd (sts ! k)))
                               (backward (zero_grad (fst (sts ! k)))
                                  (fst (?batches ! k)) outputs (snd (?batches ! k)))),
                         snd (snd (sts ! k)) + loss))
               \<and> train_epoch epochs nb epoch = Inr nb'
               \<and> model nb' = fst (sts ! 4) \<and> optimizer nb' = fst (snd (sts ! 4))
               \<and> steps_taken (optimizer nb') = steps_taken (optimizer nb) + 4"
    by (intro exI [of _ sts] exI [of _ nb']) blast
  with lens ms n show ?thesis by blast
qed

theorem epoch_batches_witness:
  "notebook_ok example_notebook
   \<and> map (\<lambda>b. length (fst b)) (fst (iterate (dataloader example_notebook) (gen example_notebook)))
       = [32, 32, 32, 4]
   \<and> mset (concat (map (\<lambda>b. zip (fst b) (snd b))
        (fst (iterate (dataloader example_notebook) (gen example_notebook)))))
       = mset (zip (X example_notebook) (y example_notebook))
   \<and> (\<exists>sts nb'. length sts = 5
         \<and> sts ! 0 = ((model example_notebook)\<lparr>training := True\<rparr>, optimizer example_notebook, 0)
         \<and> (3 :: nat) < 4
         \<and> (\<exists>outputs loss.
                forward (fst (sts ! 3))
                  (fst (fst (iterate (dataloader example_notebook) (gen example_notebook)) ! 3))
                  = Inr outputs
              \<and> BCELoss outputs
                  (snd (fst (iterate (dataloader example_notebook) (gen example_notebook)) ! 3))
                  = Inr loss
              \<and> sts ! 4 =
                  (fst (optimizer_step (fst (snd (sts ! 3)))
                         (backward (zero_grad (fst (sts ! 3)))
                            (fst (fst (iterate (dataloader example_notebook) (gen example_notebook)) ! 3))
                            outputs
                            (snd (fst (iterate (dataloader example_notebook) (gen example_notebook)) ! 3)))),
                   snd (optimizer_step (fst (snd (sts ! 3)))
                         (backward (zero_grad (fst (sts ! 3)))
                            (fst (fst (iterate (dataloader example_notebook) (gen example_notebook)) ! 3))
                            outputs
                            (snd (fst (iterate (dataloader example_notebook) (gen example_notebook)) ! 3)))),
                   snd (snd (sts ! 3)) + loss))
         \<and> train_epoch 100 example_notebook 0 = Inr nb'
         \<and> model nb' = fst (sts ! 4) \<and> optimizer nb' = fst (snd (sts ! 4))
         \<and> steps_taken (optimizer nb') = steps_taken (optimizer example_notebook) + 4)"
proof -
  let ?batches = "fst (iterate (dataloader example_notebook) (gen example_notebook))"
  note e = epoch_batches [OF example_notebook_ok, of 100 0]
  from e obtain sts nb' where
    a: "length sts = 5"
      "sts ! 0 = ((model example_notebook)\<lparr>training := True\<rparr>, optimizer example_notebook, 0)"
      "train_epoch 100 example_notebook 0 = Inr nb'"
      "model nb' = fst (sts ! 4)" "optimizer nb' = fst (snd (sts ! 4))"
      "steps_taken (optimizer nb') = steps_taken (optimizer example_notebook) + 4"
    and b: "\<forall>k<4. \<exists>outputs loss.
                      forward (fst (sts ! k)) (fst (?batches ! k)) = Inr outputs
                    \<and> BCELoss outputs (snd (?batches ! k)) = Inr loss
                    \<and> sts ! (k + 1) =
                        (fst (optimizer_step (fst (snd (sts ! k)))
                               (backward (zero_grad (fst (sts ! k)))
                                  (fst (?batches ! k)) outputs (snd (?batches ! k)))),
                         snd (optimizer_step (fst (snd (sts ! k)))
                               (backward (zero_grad (fst (sts ! k)))
                                  (fst (?batches ! k)) outputs (snd (?batches ! k)))),
                         snd (snd (sts ! k)) + loss)"
    by blast
  from b [rule_format, of 3] have c: "\<exists>outputs loss.
                      forward (fst (sts ! 3)) (fst (?batches ! 3)) = Inr outputs
                    \<and> BCELoss outputs (snd (?batches ! 3)) = Inr loss
                    \<and> sts ! 4 =
                        (fst (optimizer_step (fst (snd (sts ! 3)))
                               (backward (zero_grad (fst (sts ! 3)))
                                  (fst (?batches ! 3)) outputs (snd (?batches ! 3)))),
                         snd (optimizer_step (fst (snd (sts ! 3)))
                               (backward (zero_grad (fst (sts ! 3)))
                                  (fst (?batches ! 3)) outputs (snd (?batches ! 3)))),
                         snd (snd (sts ! 3)) + loss)"
    by simp
  have d: "(3 :: nat) < 4" by simp
  from a c d have "\<exists>sts nb'. length sts = 5
         \<and> sts ! 0 = ((model example_notebook)\<lparr>training := True\<rparr>, optimizer example_notebook, 0)
         \<and> (3 :: nat) < 4
         \<and> (\<exists>outputs loss.
                forward (fst (sts ! 3)) (fst (?batches ! 3)) = Inr outputs
              \<and> BCELoss outputs (snd (?batches ! 3)) = Inr loss
              \<and> sts ! 4 =
                  (fst (optimizer_step (fst (snd (sts ! 3)))
                         (backward (zero_grad (fst (sts ! 3)))
                            (fst (?batches ! 3)) outputs (snd (?batches ! 3)))),
                   snd (optimizer_step (fst (snd (sts ! 3)))
                         (backward (zero_grad (fst (sts ! 3)))
                            (fst (?batches ! 3)) outputs (snd (?batches ! 3)))),
                   snd (snd (sts ! 3)) + loss))
         \<and> train_epoch 100 example_notebook 0 = Inr nb'
         \<and> model nb' = fst (sts ! 4) \<and> optimizer nb' = fst (snd (sts ! 4))
         \<and> steps_taken (optimizer nb') = steps_taken (optimizer example_notebook) + 4"
    by (intro exI [of _ sts] exI [of _ nb']) blast
  with e example_notebook_ok show ?thesis by blast
qed

section \<open>The printed loss\<close>

lemma epoch_losses:
  assumes s: "train_epoch epochs nb epoch = Inr nb'"
    and len: "length (fst (iterate (dataloader nb) (gen nb))) = 4"
  shows "\<exists>sts. length sts = 5
           \<and> sts ! 0 = ((model nb)\<lparr>training := True\<rparr>, optimizer nb, 0)
           \<and> (\<forall>k<4. train_batch (sts ! k) (fst (iterate (dataloader nb) (gen nb)) ! k)
                        = Inr (sts ! (k + 1))
                  \<and> (\<exists>outputs.
                        forward (fst (sts ! k)) (fst (fst (iterate (dataloader nb) (gen nb)) ! k))
                          = Inr outputs
                      \<and> BCELoss outputs (snd (fst (iterate (dataloader nb) (gen nb)) ! k))
                          = Inr (pass_losses ((model nb)\<lparr>training := True\<rparr>, optimizer nb)
                                   (fst (iterate (dataloader nb) (gen nb))) ! k)))"
proof -
  let ?batches = "fst (iterate (dataloader nb) (gen nb))"
  let ?losses = "pass_losses ((model nb)\<lparr>training := True\<rparr>, optimizer nb) ?batches"
  from train_epoch_pass [OF s] obtain l where
    tb: "train_batches ((model nb)\<lparr>training := True\<rparr>, optimizer nb, 0) ?batches
           = Inr (model nb', optimizer nb', l)" by blast
  from train_batches_trace [OF tb] obtain sts where
    t: "length sts = length ?batches + 1" "sts ! 0 = ((model nb)\<lparr>training := True\<rparr>, optimizer nb, 0)"
    and u: "\<forall>k<length ?batches. train_batch (sts ! k) (?batches ! k) = Inr (sts ! (k + 1))
              \<and> batch_loss (fst (sts ! k)) (?batches ! k) = Inr (?losses ! k)"
    by blast
  have "train_batch (sts ! k) (?batches ! k) = Inr (sts ! (k + 1))
          \<and> (\<exists>outputs. forward (fst (sts ! k)) (fst (?batches ! k)) = Inr outputs
                \<and> BCELoss outputs (snd (?batches ! k)) = Inr (?losses ! k))" if "k < 4" for k
  proof -
    from u that len have a: "train_batch (sts ! k) (?batches ! k) = Inr (sts ! (k + 1))"
      and b: "batch_loss (fst (sts ! k)) (?batches ! k) = Inr (?losses ! k)" by simp_all
    from b have "\<exists>outputs. forward (fst (sts ! k)) (fst (?batches ! k)) = Inr outputs
                \<and> BCELoss outputs (snd (?batches ! k)) = Inr (?losses ! k)"
      by (auto simp: batch_loss_def split: sum.splits)
    with a show ?thesis by blast
  qed
  with t len show ?thesis by (intro exI [of _ sts]) simp
qed

lemma four_batches: "notebook_ok nb \<Longrightarrow> length (fst (iterate (dataloader nb) (gen nb))) = 4"
proof -
  assume "notebook_ok nb"
  from iterate_batches [OF this]
  have lens: "map (\<lambda>b. length (fst b)) (fst (iterate (dataloader nb) (gen nb))) = [32, 32, 32, 4]"
    by simp
  have "length (map (\<lambda>b. length (fst b)) (fst (iterate (dataloader nb) (gen nb))))
          = length [32, 32, 32, 4 :: nat]" by (simp only: lens)
  then show ?thesis by simp
qed

text \<open>
  C9: in a notebook state with the script's shapes, an epoch whose number plus one is a
  multiple of 10 prints the sum of four loss values divided by 4, the number of batches;
  the \<open>k\<close>-th of them is the loss \<^verbatim>\<open>criterion(model(inputs), labels)\<close> of the \<open>k\<close>-th batch of the
  pass, computed with the model that the training steps on the batches before it have
  left. This is not the mean loss per sample in general: on the generator whose draws
  give all-zero data, the value in the first loss line of the run differs from the mean
  that weights each of these four losses with the size of its batch.
\<close>

theorem printed_loss_is_batch_mean:
  "(notebook_ok nb \<and> (epoch + 1) mod 10 = 0 \<longrightarrow>
      (\<exists>nb' sts losses. train_epoch epochs nb epoch = Inr nb'
         \<and> len_dataloader (dataloader nb) = 4 \<and> length sts = 5 \<and> length losses = 4
         \<and> sts ! 0 = ((model nb)\<lparr>training := True\<rparr>, optimizer nb, 0)
         \<and> (\<forall>k<4. train_batch (sts ! k) (fst (iterate (dataloader nb) (gen nb)) ! k)
                      = Inr (sts ! (k + 1))
                \<and> (\<exists>outputs.
                      forward (fst (sts ! k)) (fst (fst (iterate (dataloader nb) (gen nb)) ! k))
                        = Inr outputs
                    \<and> BCELoss outputs (snd (fst (iterate (dataloader nb) (gen nb)) ! k))
                        = Inr (losses ! k)))
         \<and> stdout nb' = stdout nb @ [LossLine (epoch + 1) epochs (sum_list losses / 4)]))
   \<and> (\<exists>nb0 nb9 nb10 sts losses. init_cells zero_generator = Inr nb0
         \<and> train_loop 100 nb0 [0..<9] = Inr nb9 \<and> train_epoch 100 nb9 9 = Inr nb10
         \<and> length sts = 5 \<and> length losses = 4
         \<and> sts ! 0 = ((model nb9)\<lparr>training := True\<rparr>, optimizer nb9, 0)
         \<and> (\<forall>k<4. train_batch (sts ! k) (fst (iterate (dataloader nb9) (gen nb9)) ! k)
                      = Inr (sts ! (k + 1))
                \<and> (\<exists>outputs.
                      forward (fst (sts ! k)) (fst (fst (iterate (dataloader nb9) (gen nb9)) ! k))
                        = Inr outputs
                    \<and> BCELoss outputs (snd (fst (iterate (dataloader nb9) (gen nb9)) ! k))
                        = Inr (losses ! k)))
         \<and> stdout nb10 = [LossLine 10 100 (sum_list losses / 4)]
         \<and> sum_list losses / 4
             \<noteq> per_sample_mean (fst (iterate (dataloader nb9) (gen nb9))) losses)"
proof -
  have a: "notebook_ok nb \<and> (epoch + 1) mod 10 = 0 \<longrightarrow>
      (\<exists>nb' sts losses. train_epoch epochs nb epoch = Inr nb'
         \<and> len_dataloader (dataloader nb) = 4 \<and> length sts = 5 \<and> length losses = 4
         \<and> sts ! 0 = ((model nb)\<lparr>training := True\<rparr>, optimizer nb, 0)
         \<and> (\<forall>k<4. train_batch (sts ! k) (fst (iterate (dataloader nb) (gen nb)) ! k)
                      = Inr (sts ! (k + 1))
                \<and> (\<exists>outputs.
                      forward (fst (sts ! k)) (fst (fst (iterate (dataloader nb) (gen nb)) ! k))
                        = Inr outputs
                    \<and> BCELoss outputs (snd (fst (iterate (dataloader nb) (gen nb)) ! k))
                        = Inr (losses ! k)))
         \<and> stdout nb' = stdout nb @ [LossLine (epoch + 1) epochs (sum_list losses / 4)])"
  proof
    assume h: "notebook_ok nb \<and> (epoch + 1) mod 10 = 0"
    then have ok: "notebook_ok nb" and p: "(epoch + 1) mod 10 = 0" by simp_all
    let ?losses = "pass_losses ((model nb)\<lparr>training := True\<rparr>, optimizer nb)
                     (fst (iterate (dataloader nb) (gen nb)))"
    from train_epoch_Inr [OF ok, of epochs epoch] p obtain nb' where
      s: "train_epoch epochs nb epoch = Inr nb'" and l: "length ?losses = 4"
      and out: "stdout nb' = stdout nb @ [LossLine (epoch + 1) epochs (sum_list ?losses / 4)]"
      by auto
    from epoch_losses [OF s four_batches [OF ok]] obtain sts where
      c: "length sts = 5" "sts ! 0 = ((model nb)\<lparr>training := True\<rparr>, optimizer nb, 0)"
        "\<forall>k<4. train_batch (sts ! k) (fst (iterate (dataloader nb) (gen nb)) ! k)
                      = Inr (sts ! (k + 1))
                \<and> (\<exists>outputs.
                      forward (fst (sts ! k)) (fst (fst (iterate (dataloader nb) (gen nb)) ! k))
                        = Inr outputs
                    \<and> BCELoss outputs (snd (fst (iterate (dataloader nb) (gen nb)) ! k))
                        = Inr (?losses ! k))" by blast
    from s len_dataloader_100 [OF ok] c l out
    show "\<exists>nb' sts losses. train_epoch epochs nb epoch = Inr nb'
         \<and> len_dataloader (dataloader nb) = 4 \<and> length sts = 5 \<and> length losses = 4
         \<and> sts ! 0 = ((model nb)\<lparr>training := True\<rparr>, optimizer nb, 0)
         \<and> (\<forall>k<4. train_batch (sts ! k) (fst (iterate (dataloader nb) (gen nb)) ! k)
                      = Inr (sts ! (k + 1))
                \<and> (\<exists>outputs.
                      forward (fst (sts ! k)) (fst (fst (iterate (dataloader nb) (gen nb)) ! k))
                        = Inr outputs
                    \<and> BCELoss outputs (snd (fst (iterate (dataloader nb) (gen nb)) ! k))
                        = Inr (losses ! k)))
         \<and> stdout nb' = stdout nb @ [LossLine (epoch + 1) epochs (sum_list losses / 4)]"
      by (intro exI [of _ nb'] exI [of _ sts] exI [of _ ?losses]) blast
  qed
  from zero_generator_start obtain nb0 where
    s0: "init_cells zero_generator = Inr nb0" "constant_data nb0" "stdout nb0 = []" by blast
  have quiet: "list_all (\<lambda>e. (e + 1) mod 10 \<noteq> 0) [0..<9]" by code_simp
  from constant_loop [OF s0(2), of 100 "[0..<9]"] quiet obtain nb9 where
    s9: "train_loop 100 nb0 [0..<9] = Inr nb9" "constant_data nb9" "stdout nb9 = stdout nb0"
    by blast
  from s9(2) have ok9: "notebook_ok nb9" by (simp add: constant_data_def)
  let ?losses = "pass_losses ((model nb9)\<lparr>training := True\<rparr>, optimizer nb9)
                   (fst (iterate (dataloader nb9) (gen nb9)))"
  from constant_epoch [OF s9(2), of 100 9] obtain nb10 where
    s10: "train_epoch 100 nb9 9 = Inr nb10"
      "stdout nb10 = stdout nb9 @ [LossLine 10 100 (sum_list ?losses / 4)]"
      "sum_list ?losses / 4 \<noteq> per_sample_mean (fst (iterate (dataloader nb9) (gen nb9))) ?losses"
    by auto
  from train_epoch_Inr [OF ok9, of 100 9] have l9: "length ?losses = 4" by blast
  from s10(2) s9(3) s0(3) have o10: "stdout nb10 = [LossLine 10 100 (sum_list ?losses / 4)]"
    by simp
  from epoch_losses [OF s10(1) four_batches [OF ok9]] obtain sts where
    c: "length sts = 5" "sts ! 0 = ((model nb9)\<lparr>training := True\<rparr>, optimizer nb9, 0)"
      "\<forall>k<4. train_batch (sts ! k) (fst (iterate (dataloader nb9) (gen nb9)) ! k)
                      = Inr (sts ! (k + 1))
                \<and> (\<exists>outputs.
                      forward (fst (sts ! k)) (fst (fst (iterate (dataloader nb9) (gen nb9)) ! k))
                        = Inr outputs
                    \<and> BCELoss outputs (snd (fst (iterate (dataloader nb9) (gen nb9)) ! k))
                        = Inr (?losses ! k))" by blast
  from s0(1) s9(1) s10(1,3) l9 o10 c
  have b: "\<exists>nb0 nb9 nb10 sts losses. init_cells zero_generator = Inr nb0
         \<and> train_loop 100 nb0 [0..<9] = Inr nb9 \<and> train_epoch 100 nb9 9 = Inr nb10
         \<and> length sts = 5 \<and> length losses = 4
         \<and> sts ! 0 = ((model nb9)\<lparr>training := True\<rparr>, optimizer nb9, 0)
         \<and> (\<forall>k<4. train_batch (sts ! k) (fst (iterate (dataloader nb9) (gen nb9)) ! k)
                      = Inr (sts ! (k + 1))
                \<and> (\<exists>outputs.
                      forward (fst (sts ! k)) (fst (fst (iterate (dataloader nb9) (gen nb9)) ! k))
                        = Inr outputs
                    \<and> BCELoss outputs (snd (fst (iterate (dataloader nb9) (gen nb9)) ! k))
                        = Inr (losses ! k)))
         \<and> stdout nb10 = [LossLine 10 100 (sum_list losses / 4)]
         \<and> sum_list losses / 4
             \<noteq> per_sample_mean (fst (iterate (dataloader nb9) (gen nb9))) losses"
    by (intro exI [of _ nb0] exI [of _ nb9] exI [of _ nb10] exI [of _ sts] exI [of _ ?losses]) blast
  from a b show ?thesis by blast
qed

theorem printed_loss_is_batch_mean_witness:
  "notebook_ok example_notebook \<and> (9 + 1) mod 10 = (0 :: nat)
   \<and> (\<exists>nb' sts losses. train_epoch 100 example_notebook 9 = Inr nb'
         \<and> len_dataloader (dataloader example_notebook) = 4 \<and> length sts = 5 \<and> length losses = 4
         \<and> sts ! 0 = ((model example_notebook)\<lparr>training := True\<rparr>, optimizer example_notebook, 0)
         \<and> (3 :: nat) < 4
         \<and> train_batch (sts ! 3) (fst (iterate (dataloader example_notebook) (gen example_notebook)) ! 3)
              = Inr (sts ! 4)
         \<and> (\<exists>outputs.
                forward (fst (sts ! 3))
                  (fst (fst (iterate (dataloader example_notebook) (gen example_notebook)) ! 3))
                  = Inr outputs
              \<and> BCELoss outputs
                  (snd (fst (iterate (dataloader example_notebook) (gen example_notebook)) ! 3))
                  = Inr (losses ! 3))
         \<and> stdout nb' = [LossLine 10 100 (sum_list losses / 4)])"
proof -
  let ?batches = "fst (iterate (dataloader example_notebook) (gen example_notebook))"
  have h: "(9 + 1) mod 10 = (0 :: nat)" by simp
  have o: "stdout example_notebook = []" by (simp add: example_notebook_def)
  have "notebook_ok example_notebook \<and> (9 + 1) mod 10 = (0 :: nat) \<longrightarrow>
      (\<exists>nb' sts losses. train_epoch 100 example_notebook 9 = Inr nb'
         \<and> len_dataloader (dataloader example_notebook) = 4 \<and> length sts = 5 \<and> length losses = 4
         \<and> sts ! 0 = ((model example_notebook)\<lparr>training := True\<rparr>, optimizer example_notebook, 0)
         \<and> (\<forall>k<4. train_batch (sts ! k) (?batches ! k) = Inr (sts ! (k + 1))
                \<and> (\<exists>outputs. forward (fst (sts ! k)) (fst (?batches ! k)) = Inr outputs
                    \<and> BCELoss outputs (snd (?batches ! k)) = Inr (losses ! k)))
         \<and> stdout nb' = stdout example_notebook @ [LossLine (9 + 1) 100 (sum_list losses / 4)])"
    by (rule printed_loss_is_batch_mean [of example_notebook 9 100, THEN conjunct1])
  from this [THEN mp, OF conjI [OF example_notebook_ok h]] obtain nb' sts losses where
    a: "train_epoch 100 example_notebook 9 = Inr nb'"
      "len_dataloader (dataloader example_notebook) = 4" "length sts = 5" "length losses = 4"
      "sts ! 0 = ((model example_notebook)\<lparr>training := True\<rparr>, optimizer example_notebook, 0)"
      "stdout nb' = stdout example_notebook @ [LossLine (9 + 1) 100 (sum_list losses / 4)]"
    and b: "\<forall>k<4. train_batch (sts ! k) (?batches ! k) = Inr (sts ! (k + 1))
                \<and> (\<exists>outputs. forward (fst (sts ! k)) (fst (?batches ! k)) = Inr outputs
                    \<and> BCELoss outputs (snd (?batches ! k)) = Inr (losses ! k))"
    by (elim exE conjE)
  from b [rule_format, of 3] have c: "train_batch (sts ! 3) (?batches ! 3) = Inr (sts ! 4)"
    "\<exists>outputs. forward (fst (sts ! 3)) (fst (?batches ! 3)) = Inr outputs
        \<and> BCELoss outputs (snd (?batches ! 3)) = Inr (losses ! 3)"
    by simp_all
  from a(6) have d: "stdout nb' = [LossLine 10 100 (sum_list losses / 4)]" by (simp add: o)
  have e: "(3 :: nat) < 4" by simp
  from a(1-5) c d e have "\<exists>nb' sts losses. train_epoch 100 example_notebook 9 = Inr nb'
         \<and> len_dataloader (dataloader example_notebook) = 4 \<and> length sts = 5 \<and> length losses = 4
         \<and> sts ! 0 = ((model example_notebook)\<lparr>training := True\<rparr>, optimizer example_notebook, 0)
         \<and> (3 :: nat) < 4
         \<and> train_batch (sts ! 3) (?batches ! 3) = Inr (sts ! 4)
         \<and> (\<exists>outputs. forward (fst (sts ! 3)) (fst (?batches ! 3)) = Inr outputs
              \<and> BCELoss outputs (snd (?batches ! 3)) = Inr (losses ! 3))
         \<and> stdout nb' = [LossLine 10 100 (sum_list losses / 4)]"
    by (intro exI [of _ nb'] exI [of _ sts] exI [of _ losses]) blast
  with example_notebook_ok h show ?thesis by blast
qed

end
